theory Spec2Isabelle
  imports Complex_Main
begin

section \<open>Arrays\<close>

text \<open>
  A one-axis float array is a list of reals, a two-axis array is the list of its rows.
  Real arithmetic stands for the float arithmetic of the source: statements that the
  source makes "within floating tolerance" are proved here as exact equalities.
  A two-axis array of shape \<open>(n, m)\<close> has \<open>n\<close> rows of length \<open>m\<close>. A list of rows
  does not record the second extent of an array without rows: there the sums along the
  first axis are the empty list here, and the statements below are about arrays with at
  least one row. Division by zero, which numpy answers with \<open>nan\<close> or \<open>inf\<close>, is excluded by
  the hypotheses of the statements that divide.
\<close>

type_synonym vec = "real list"

type_synonym mat = "real list list"

definition has_shape :: "nat \<Rightarrow> nat \<Rightarrow> 'a list list \<Rightarrow> bool" where
  "has_shape n m A \<longleftrightarrow> length A = n \<and> list_all (\<lambda>r. length r = m) A"

definition symmetric_mat :: "mat \<Rightarrow> bool" where
  "symmetric_mat A \<longleftrightarrow>
     list_all (\<lambda>i. list_all (\<lambda>j. A ! i ! j = A ! j ! i) [0..<length A]) [0..<length A]"

text \<open>\<^verbatim>\<open>np.sum(A)\<close>: the sum of all entries.\<close>

definition np_sum :: "mat \<Rightarrow> real" where
  "np_sum A = sum_list (map sum_list A)"

text \<open>\<^verbatim>\<open>np.sum(A, axis=0)\<close>: entry \<open>j\<close> is the sum of column \<open>j\<close>.\<close>

definition np_sum_axis0 :: "mat \<Rightarrow> vec" where
  "np_sum_axis0 A =
     (case A of [] \<Rightarrow> []
      | r # _ \<Rightarrow> map (\<lambda>j. sum_list (map (\<lambda>row. row ! j) A)) [0..<length r])"

definition vec_add :: "vec \<Rightarrow> vec \<Rightarrow> vec" where
  "vec_add u v = map2 (+) u v"

text \<open>
  Python's builtin \<^verbatim>\<open>sum(A, 0)\<close> on a two-axis array: it iterates over the first
  axis and adds the rows to the start value 0, one after the other.
\<close>

definition py_sum :: "mat \<Rightarrow> vec" where
  "py_sum A = (case A of [] \<Rightarrow> [] | r # rs \<Rightarrow> foldl vec_add (map (\<lambda>x. 0 + x) r) rs)"

definition np_outer :: "vec \<Rightarrow> vec \<Rightarrow> mat" where
  "np_outer u v = map (\<lambda>a. map (\<lambda>b. a * b) v) u"

text \<open>Elementwise \<^verbatim>\<open>A / B\<close> and \<^verbatim>\<open>A + B\<close> of two arrays of one shape.\<close>

definition mat_div :: "mat \<Rightarrow> mat \<Rightarrow> mat" where
  "mat_div A B = map2 (map2 (/)) A B"

definition mat_add :: "mat \<Rightarrow> mat \<Rightarrow> mat" where
  "mat_add A B = map2 (map2 (+)) A B"

text \<open>\<^verbatim>\<open>np.tile(v, (n, 1))\<close>: \<open>n\<close> rows, each of them \<open>v\<close>.\<close>

definition np_tile_rows :: "vec \<Rightarrow> nat \<Rightarrow> mat" where
  "np_tile_rows v n = replicate n v"

definition np_diag :: "vec \<Rightarrow> mat" where
  "np_diag v = map (\<lambda>i. map (\<lambda>j. if i = j then v ! i else 0) [0..<length v]) [0..<length v]"

definition np_zeros :: "nat \<Rightarrow> nat \<Rightarrow> mat" where
  "np_zeros n m = replicate n (replicate m 0)"

text \<open>\<^verbatim>\<open>np.transpose(A)\<close> of a square array.\<close>

definition np_transpose :: "mat \<Rightarrow> mat" where
  "np_transpose A = map (\<lambda>i. map (\<lambda>j. A ! j ! i) [0..<length A]) [0..<length A]"

text \<open>The assignment \<^verbatim>\<open>A[i,j] = v\<close>.\<close>

definition mat_set :: "mat \<Rightarrow> nat \<Rightarrow> nat \<Rightarrow> real \<Rightarrow> mat" where
  "mat_set A i j v = A[i := (A ! i)[j := v]]"

section \<open>Diffusion maps (\<^verbatim>\<open>manifold_learning.py\<close>)\<close>

text \<open>
  The four array statements of \<^verbatim>\<open>diffusionMaps\<close>, in the order of the source, each
  as a function of the arguments: \<open>dm_kernelMat1\<close> is \<^verbatim>\<open>kernelMat\<close> after line 38,
  \<open>dm_rowsum\<close> is line 39, \<open>dm_kernelMat2\<close> is \<^verbatim>\<open>kernelMat\<close> after line 42
  (the density compensation), \<open>dm_kernelMat3\<close> is \<^verbatim>\<open>kernelMat\<close> after line 45 and
  \<open>dm_weightMat\<close> is line 48. The power \<^verbatim>\<open>rowsum**alpha\<close> is \<open>powr\<close>: the two
  agree on a positive base, and every entry of \<open>dm_rowsum\<close> is positive
  (lemma \<open>dm_rowsum_pos\<close>).
\<close>

definition dm_kernelMat1 :: "mat \<Rightarrow> real \<Rightarrow> mat" where
  "dm_kernelMat1 distMat epsi = map (map (\<lambda>d. exp (- (d ^ 2) / epsi))) distMat"

definition dm_rowsum :: "mat \<Rightarrow> real \<Rightarrow> vec" where
  "dm_rowsum distMat epsi = np_sum_axis0 (dm_kernelMat1 distMat epsi)"

definition dm_kernelMat2 :: "mat \<Rightarrow> real \<Rightarrow> real \<Rightarrow> mat" where
  "dm_kernelMat2 distMat epsi alpha =
     mat_div (dm_kernelMat1 distMat epsi)
       (np_outer (map (\<lambda>r. r powr alpha) (dm_rowsum distMat epsi))
                 (map (\<lambda>r. r powr alpha) (dm_rowsum distMat epsi)))"

definition dm_kernelMat3 :: "mat \<Rightarrow> real \<Rightarrow> real \<Rightarrow> mat" where
  "dm_kernelMat3 distMat epsi alpha =
     mat_div (dm_kernelMat2 distMat epsi alpha)
       (np_tile_rows (py_sum (dm_kernelMat2 distMat epsi alpha)) (length distMat))"

definition dm_weightMat :: "mat \<Rightarrow> real \<Rightarrow> real \<Rightarrow> mat" where
  "dm_weightMat distMat epsi alpha = np_diag (py_sum (dm_kernelMat3 distMat epsi alpha))"

text \<open>
  \<^verbatim>\<open>diffusionMaps\<close> itself. The sparse eigensolver \<^verbatim>\<open>scipy.sparse.linalg.eigs\<close> is a
  library routine and is a parameter \<open>sla_eigs\<close> here, called as the source calls it:
  with the matrix, the number of eigenpairs and the mass matrix.
\<close>

definition diffusionMaps :: "(mat \<Rightarrow> nat \<Rightarrow> mat \<Rightarrow> 'e) \<Rightarrow> mat \<Rightarrow> nat \<Rightarrow> real \<Rightarrow> real \<Rightarrow> 'e" where
  "diffusionMaps sla_eigs distMat n_components epsi alpha =
     (let npoints = length distMat;
          kernelMat = map (map (\<lambda>d. exp (- (d ^ 2) / epsi))) distMat;
          rowsum = np_sum_axis0 kernelMat;
          kernelMat = mat_div kernelMat
                        (np_outer (map (\<lambda>r. r powr alpha) rowsum) (map (\<lambda>r. r powr alpha) rowsum));
          kernelMat = mat_div kernelMat (np_tile_rows (py_sum kernelMat) npoints);
          weightMat = np_diag (py_sum kernelMat)
      in sla_eigs kernelMat n_components weightMat)"

text \<open>A Python slice \<^verbatim>\<open>xs[:k]\<close>: a bound beyond the end is clamped, a negative one counts from the end.\<close>

definition py_slice_to :: "int \<Rightarrow> 'a list \<Rightarrow> 'a list" where
  "py_slice_to k xs = (if 0 \<le> k then take (nat k) xs else take (length xs - nat (- k)) xs)"

definition evaluateDiffusionMaps :: "complex list \<times> complex list list \<Rightarrow> int \<Rightarrow> mat" where
  "evaluateDiffusionMaps eigs n_components =
     map (\<lambda>row. map2 (*) (py_slice_to n_components (map Re row))
                           (py_slice_to n_components (map Re (fst eigs))))
         (snd eigs)"

section \<open>Pairwise matrices (\<^verbatim>\<open>transition_manifold.py\<close>)\<close>

text \<open>
  A start-point ensemble, the three-axis array \<^verbatim>\<open>X\<close> of shape
  \<open>(n_startpoints, M, dim)\<close>, is the list of its \<open>n_startpoints\<close> clouds, each the list of
  its \<open>M\<close> points. The builders never look into a point, so its type is a parameter.
\<close>

definition shape0 :: "'p list list \<Rightarrow> nat" where
  "shape0 X = length X"

definition shape1 :: "'p list list \<Rightarrow> nat" where
  "shape1 X = (case X of [] \<Rightarrow> 0 | c # _ \<Rightarrow> length c)"

text \<open>
  \<^verbatim>\<open>X.swapaxes(0,1).reshape(n_startpoints * M, dim)\<close>: the first two axes are exchanged
  and then flattened in row-major order.
\<close>

definition reshape_ensemble :: "'p list list \<Rightarrow> 'p list" where
  "reshape_ensemble X = concat (transpose X)"

text \<open>The slice \<^verbatim>\<open>xs[i::n]\<close> with a step \<open>n > 0\<close>: the rows \<open>i, i + n, i + 2n, ...\<close>.\<close>

definition py_stride_from :: "nat \<Rightarrow> nat \<Rightarrow> 'a list \<Rightarrow> 'a list" where
  "py_stride_from i n xs = map (\<lambda>k. xs ! (i + k * n)) [0..<(length xs - i + n - 1) div n]"

text \<open>The two nested \<^verbatim>\<open>for\<close> statements that fill row \<open>i\<close> in the columns \<open>j < c i\<close>.\<close>

definition fill_entries :: "nat \<Rightarrow> (nat \<Rightarrow> nat) \<Rightarrow> (nat \<Rightarrow> nat \<Rightarrow> real) \<Rightarrow> mat \<Rightarrow> mat" where
  "fill_entries n c f A =
     foldl (\<lambda>A i. foldl (\<lambda>A j. mat_set A i j (f i j)) A [0..<c i]) A [0..<n]"

text \<open>The loop \<^verbatim>\<open>dXX = np.append(dXX, g(i))\<close> over \<^verbatim>\<open>range(n)\<close>, from \<^verbatim>\<open>dXX = []\<close>.\<close>

definition append_loop :: "nat \<Rightarrow> (nat \<Rightarrow> real) \<Rightarrow> vec" where
  "append_loop n g = foldl (\<lambda>dXX i. dXX @ [g i]) [] [0..<n]"

definition KernelBurst_distMat :: "('p list \<Rightarrow> 'p list \<Rightarrow> mat) \<Rightarrow> 'p list list \<Rightarrow> mat" where
  "KernelBurst_distMat kernel_evaluate X0 =
     (let npoints = shape0 X0; M = shape1 X0;
          X = reshape_ensemble X0;
          dXX = append_loop npoints
                  (\<lambda>i. np_sum (kernel_evaluate (py_stride_from i npoints X) (py_stride_from i npoints X)));
          distMat = fill_entries npoints (\<lambda>i. i)
                      (\<lambda>i j. (dXX ! i + dXX ! j
                                - 2 * np_sum (kernel_evaluate (py_stride_from i npoints X)
                                                              (py_stride_from j npoints X)))
                              / (real M) ^ 2)
                      (np_zeros npoints npoints)
      in mat_add distMat (np_transpose distMat))"

definition KernelTraj_distMat :: "('p list \<Rightarrow> 'p list \<Rightarrow> mat) \<Rightarrow> 'p list list \<Rightarrow> mat" where
  "KernelTraj_distMat kernel_evaluate pointclouds =
     (let npoints = length pointclouds;
          dXX = append_loop npoints
                  (\<lambda>i. np_sum (kernel_evaluate (pointclouds ! i) (pointclouds ! i)));
          distMat = fill_entries npoints (\<lambda>i. i)
                      (\<lambda>i j. dXX ! i / (real (length (pointclouds ! i))) ^ 2
                              + dXX ! j / (real (length (pointclouds ! j))) ^ 2
                              - 2 * np_sum (kernel_evaluate (pointclouds ! i) (pointclouds ! j))
                                / (real (length (pointclouds ! i)) * real (length (pointclouds ! j))))
                      (np_zeros npoints npoints)
      in mat_add distMat (np_transpose distMat))"

text \<open>
  \<^verbatim>\<open>L2BurstTransitionManifold\<close>. The routines of sklearn and scipy that its method
  \<^verbatim>\<open>L2distance\<close> calls are parameters: \<open>KernelDensity_fit b cloud\<close> is
  \<^verbatim>\<open>KernelDensity(kernel="gaussian", bandwidth=b).fit(cloud)\<close>, \<open>score_samples kde x y\<close> is
  \<^verbatim>\<open>kde.score_samples(np.array([[x,y]]))\<close>, and \<open>dblquad f a b g h\<close> is scipy's quadrature,
  which returns the estimate of the integral and the estimate of its error. The density
  estimators are evaluated at points \<^verbatim>\<open>[x, y]\<close> of the plane, so the clouds they are fitted on
  are clouds of points with two coordinates: here a point is the pair of its coordinates,
  and the ensemble of shape \<open>(n_startpoints, M, 2)\<close> is the list of its clouds of pairs.
\<close>

record 'kde density_libraries =
  KernelDensity_fit :: "real \<Rightarrow> (real \<times> real) list \<Rightarrow> 'kde"
  score_samples :: "'kde \<Rightarrow> real \<Rightarrow> real \<Rightarrow> real"
  dblquad :: "(real \<Rightarrow> real \<Rightarrow> real) \<Rightarrow> real \<Rightarrow> real \<Rightarrow> real \<Rightarrow> real \<Rightarrow> real \<times> real"

record L2BurstTransitionManifold =
  l2_rho :: "real \<Rightarrow> real \<Rightarrow> real"
  l2_epsi :: real
  l2_domain :: mat
  l2_kde_epsi :: real
  l2_distMat :: "mat option"

text \<open>The method \<^verbatim>\<open>L2distance\<close>, lines 185 to 197.\<close>

definition L2distance ::
  "'kde density_libraries \<Rightarrow> L2BurstTransitionManifold \<Rightarrow> (real \<times> real) list
   \<Rightarrow> (real \<times> real) list \<Rightarrow> real \<times> real" where
  "L2distance lib self cloud1 cloud2 =
     (let KDE1 = KernelDensity_fit lib (l2_kde_epsi self) cloud1;
          KDE2 = KernelDensity_fit lib (l2_kde_epsi self) cloud2;
          kde1fun = (\<lambda>x y. exp (score_samples lib KDE1 x y));
          kde2fun = (\<lambda>x y. exp (score_samples lib KDE2 x y));
          integrand = (\<lambda>x y. (kde1fun x y - kde2fun x y) ^ 2 / l2_rho self x y);
          dist = dblquad lib integrand (l2_domain self ! 0 ! 0) (l2_domain self ! 1 ! 0)
                   (l2_domain self ! 0 ! 1) (l2_domain self ! 1 ! 1)
      in dist)"

definition L2Burst_distMat ::
  "'kde density_libraries \<Rightarrow> L2BurstTransitionManifold \<Rightarrow> (real \<times> real) list list \<Rightarrow> mat" where
  "L2Burst_distMat lib self X0 =
     (let npoints = shape0 X0;
          X = reshape_ensemble X0
      in fill_entries npoints (\<lambda>i. npoints)
           (\<lambda>i j. fst (L2distance lib self (py_stride_from i npoints X) (py_stride_from j npoints X)))
           (np_zeros npoints npoints))"

text \<open>\<^verbatim>\<open>L2BurstTransitionManifold.fit\<close> stores the matrix and computes nothing else.\<close>

definition L2BurstTransitionManifold_fit ::
  "'kde density_libraries \<Rightarrow> L2BurstTransitionManifold \<Rightarrow> (real \<times> real) list list
   \<Rightarrow> L2BurstTransitionManifold" where
  "L2BurstTransitionManifold_fit lib self X = self\<lparr>l2_distMat := Some (L2Burst_distMat lib self X)\<rparr>"

text \<open>
  The index pairs \<open>(i, j)\<close> at which the two nested \<^verbatim>\<open>for\<close> statements compute and assign
  an entry, in the order of the run: those of the kernel builders are
  \<open>visited_entries npoints (\<lambda>i. i)\<close>, those of \<^verbatim>\<open>L2BurstTransitionManifold.fit\<close> are
  \<open>L2Burst_visited\<close>.
\<close>

definition visited_entries :: "nat \<Rightarrow> (nat \<Rightarrow> nat) \<Rightarrow> (nat \<times> nat) list" where
  "visited_entries n c = concat (map (\<lambda>i. map (\<lambda>j. (i, j)) [0..<c i]) [0..<n])"

definition L2Burst_visited :: "'p list list \<Rightarrow> (nat \<times> nat) list" where
  "L2Burst_visited X0 = (let npoints = shape0 X0 in visited_entries npoints (\<lambda>i. npoints))"

text \<open>
  What the statements below ask of the quadrature: the integral of the integrand that is
  0 everywhere is estimated as 0, as any quadrature rule does.
\<close>

definition dblquad_zero :: "'kde density_libraries \<Rightarrow> bool" where
  "dblquad_zero lib \<longleftrightarrow> (\<forall>a b g h. fst (dblquad lib (\<lambda>x y. 0) a b g h) = 0)"

text \<open>
  Modelled from the spec: the kernel object is not part of the sources; its
  \<^verbatim>\<open>evaluate(X, Y)\<close> returns the matrix of the pairwise kernel values \<open>k x y\<close>, of shape
  \<open>(|X|, |Y|)\<close>. The builders take the evaluator as a parameter.
\<close>

definition evaluate :: "('p \<Rightarrow> 'p \<Rightarrow> real) \<Rightarrow> 'p list \<Rightarrow> 'p list \<Rightarrow> mat" where
  "evaluate k X Y = map (\<lambda>x. map (\<lambda>y. k x y) Y) X"

text \<open>
  The right-hand side of the specification's formula for \<open>D[i,j]\<close>, written from its
  words: \<open>S_i / |C_i|\<^sup>2 + S_j / |C_j|\<^sup>2 - 2 K_ij / (|C_i| |C_j|)\<close>, where \<open>S_i\<close> sums \<open>k\<close>
  over the ordered pairs of \<open>C_i\<close> and \<open>K_ij\<close> over \<open>C_i \<times> C_j\<close>. The builders are compared
  with it.
\<close>

definition spec_D_formula :: "('p \<Rightarrow> 'p \<Rightarrow> real) \<Rightarrow> 'p list \<Rightarrow> 'p list \<Rightarrow> real" where
  "spec_D_formula k Ci Cj =
     (\<Sum>x\<leftarrow>Ci. \<Sum>y\<leftarrow>Ci. k x y) / (real (length Ci)) ^ 2
     + (\<Sum>x\<leftarrow>Cj. \<Sum>y\<leftarrow>Cj. k x y) / (real (length Cj)) ^ 2
     - 2 * (\<Sum>x\<leftarrow>Ci. \<Sum>y\<leftarrow>Cj. k x y) / (real (length Ci) * real (length Cj))"

section \<open>Random linear embedding and the linear random-feature manifold\<close>

datatype py_error = RuntimeError string | ValueError string | LibraryError

text \<open>
  The library routines the classes call are parameters: the generator of \<^verbatim>\<open>np.random\<close>,
  the samplers of \<^verbatim>\<open>sklearn.kernel_approximation\<close> and \<^verbatim>\<open>scipy.sparse.linalg.eigsh\<close>.
  \<open>'g\<close> is the state of the process-wide generator. \<^verbatim>\<open>np.random.seed(seed)\<close> replaces
  that state by one computed from the seed alone, or raises on a seed it does not accept;
  \<^verbatim>\<open>np.random.uniform(low, high, shape)\<close> reads the state, returns the array drawn and
  leaves the advanced state behind.
\<close>

record 'g np_random =
  np_random_seed :: "int \<Rightarrow> py_error + 'g"
  np_random_uniform :: "real \<Rightarrow> real \<Rightarrow> nat \<times> nat \<Rightarrow> 'g \<Rightarrow> mat \<times> 'g"

record RandomLinearEmbeddingFunction =
  rle_inputdimension :: nat
  rle_outputdimension :: nat
  rle_seed :: int
  rle_A :: mat

text \<open>
  \<^verbatim>\<open>RandomLinearEmbeddingFunction.__init__\<close>, run in the generator state \<open>g\<close>: the result is
  the error raised, or the object together with the generator state left behind.
\<close>

definition RandomLinearEmbeddingFunction_init ::
  "'g np_random \<Rightarrow> nat \<Rightarrow> nat \<Rightarrow> int \<Rightarrow> 'g \<Rightarrow> py_error + (RandomLinearEmbeddingFunction \<times> 'g)" where
  "RandomLinearEmbeddingFunction_init rng inputdimension outputdimension seed g =
     (case np_random_seed rng seed of
        Inl e \<Rightarrow> Inl e
      | Inr g1 \<Rightarrow>
          (let (A, g2) = np_random_uniform rng 0 1 (inputdimension, outputdimension) g1
           in Inr (\<lparr>rle_inputdimension = inputdimension, rle_outputdimension = outputdimension,
                     rle_seed = seed, rle_A = A\<rparr>, g2)))"

text \<open>\<^verbatim>\<open>A @ B\<close> and \<^verbatim>\<open>x.dot(A)\<close> of two-axis arrays, and \<^verbatim>\<open>A.T\<close>.\<close>

definition ncols :: "mat \<Rightarrow> nat" where
  "ncols B = (case B of [] \<Rightarrow> 0 | r # _ \<Rightarrow> length r)"

definition np_matmul :: "mat \<Rightarrow> mat \<Rightarrow> mat" where
  "np_matmul A B =
     map (\<lambda>row. map (\<lambda>j. sum_list (map2 (*) row (map (\<lambda>r. r ! j) B))) [0..<ncols B]) A"

definition np_T :: "mat \<Rightarrow> mat" where
  "np_T B = map (\<lambda>j. map (\<lambda>r. r ! j) B) [0..<ncols B]"

definition RandomLinearEmbeddingFunction_evaluate :: "RandomLinearEmbeddingFunction \<Rightarrow> mat \<Rightarrow> mat" where
  "RandomLinearEmbeddingFunction_evaluate self x = np_matmul x (rle_A self)"

text \<open>
  The samplers. \<open>'s\<close> is a sampler object, \<open>'kw\<close> the keyword arguments handed through.
  \<^verbatim>\<open>fit_transform\<close> returns the fitted sampler with the features.
\<close>

record ('s, 'kw) libraries =
  RBFSampler :: "real \<Rightarrow> nat \<Rightarrow> 'kw \<Rightarrow> 's"
  Nystroem :: "string \<Rightarrow> nat \<Rightarrow> 'kw \<Rightarrow> 's"
  fit_transform :: "'s \<Rightarrow> mat \<Rightarrow> 's \<times> mat"
  transform :: "'s \<Rightarrow> mat \<Rightarrow> mat"
  eigsh :: "mat \<Rightarrow> nat \<Rightarrow> string \<Rightarrow> vec \<times> mat"

text \<open>
  The attributes of a \<^verbatim>\<open>LinearRandomFeatureManifold\<close>. \<^verbatim>\<open>n_points\<close>, \<^verbatim>\<open>M\<close> and
  \<^verbatim>\<open>dim\<close> do not exist before \<^verbatim>\<open>fit\<close>; \<open>None\<close> stands for that, as for Python's
  \<^verbatim>\<open>None\<close> in the other three.
\<close>

record ('s, 'kw) LinearRandomFeatureManifold =
  lrf_method :: string
  lrf_gamma :: real
  lrf_kernel :: string
  lrf_n_components :: nat
  lrf_kwargs :: 'kw
  lrf_sampler :: "'s option"
  lrf_embedded :: "mat option"
  lrf_vec :: "mat option"
  lrf_n_points :: "nat option"
  lrf_M :: "nat option"
  lrf_dim :: "nat option"

definition LinearRandomFeatureManifold_init ::
  "string \<Rightarrow> nat \<Rightarrow> string \<Rightarrow> real \<Rightarrow> 'kw \<Rightarrow> ('s, 'kw) LinearRandomFeatureManifold" where
  "LinearRandomFeatureManifold_init method n_components kernel_name gamma kwargs =
     \<lparr>lrf_method = method, lrf_gamma = gamma, lrf_kernel = kernel_name,
      lrf_n_components = n_components, lrf_kwargs = kwargs,
      lrf_sampler = None, lrf_embedded = None, lrf_vec = None,
      lrf_n_points = None, lrf_M = None, lrf_dim = None\<rparr>"

text \<open>
  \<^verbatim>\<open>predict\<close> returns the error raised or the array, and the object as the call leaves it.
  With a sampler but no \<^verbatim>\<open>vec\<close> the product with \<^verbatim>\<open>None\<close> fails inside numpy.
\<close>

definition LinearRandomFeatureManifold_predict ::
  "('s, 'kw) libraries \<Rightarrow> ('s, 'kw) LinearRandomFeatureManifold \<Rightarrow> mat
   \<Rightarrow> (py_error + mat) \<times> ('s, 'kw) LinearRandomFeatureManifold" where
  "LinearRandomFeatureManifold_predict lib self Y =
     (case lrf_sampler self of
        None \<Rightarrow> (Inl (RuntimeError ''Run fit() first to fit the model.''), self)
      | Some smp \<Rightarrow>
          (let Y_embedded = transform lib smp Y
           in case lrf_vec self of
                None \<Rightarrow> (Inl LibraryError, self)
              | Some v \<Rightarrow> (Inr (np_matmul Y_embedded v), self)))"

text \<open>
  Line 273, \<^verbatim>\<open>embedded.reshape(n_points, M, n_components).sum(axis=1)\<close>: entry
  \<open>(i, m, c)\<close> of the reshaped array is entry \<open>(i * M + m) * n_components + c\<close> of the
  flattened one, and the sum runs over \<open>m\<close>.
\<close>

definition reshape_sum_axis1 :: "nat \<Rightarrow> nat \<Rightarrow> nat \<Rightarrow> mat \<Rightarrow> mat" where
  "reshape_sum_axis1 n_points M n_components embedded =
     map (\<lambda>i. map (\<lambda>c. sum_list (map (\<lambda>m. concat embedded ! ((i * M + m) * n_components + c)) [0..<M]))
                [0..<n_components])
         [0..<n_points]"

text \<open>Lines 276 and 277: the mean over the start points is subtracted from every row.\<close>

definition subtract_mean :: "nat \<Rightarrow> mat \<Rightarrow> mat" where
  "subtract_mean n_points embedded =
     (let mean = map (\<lambda>s. s / real n_points) (np_sum_axis0 embedded)
      in map (\<lambda>row. map2 (-) row mean) embedded)"

definition fit_message :: string where
  "fit_message = ''Instantiate with either method='' @ [CHR 0x27] @ ''rff'' @ [CHR 0x27]
                 @ '' or sampler='' @ [CHR 0x27] @ ''nystroem'' @ [CHR 0x27]"

text \<open>
  Lines 271 to 279 of \<^verbatim>\<open>fit\<close>, with the sampler just built. The result is the error
  raised, if any, and the object as the call leaves it.
\<close>

definition fit_embedding ::
  "('s, 'kw) libraries \<Rightarrow> ('s, 'kw) LinearRandomFeatureManifold \<Rightarrow> 's \<Rightarrow> real list list list
   \<Rightarrow> py_error option \<times> ('s, 'kw) LinearRandomFeatureManifold" where
  "fit_embedding lib self smp X =
     (let n_points = length X; M = shape1 X; n_components = lrf_n_components self;
          (smp, embedded) = fit_transform lib smp (concat X);
          self = self\<lparr>lrf_sampler := Some smp, lrf_embedded := Some embedded\<rparr>
      in if length (concat embedded) \<noteq> n_points * M * n_components
         then (Some (ValueError ''cannot reshape array''), self)
         else
           (let embedded = reshape_sum_axis1 n_points M n_components embedded;
                self = self\<lparr>lrf_embedded := Some embedded\<rparr>;
                embedded = subtract_mean n_points embedded;
                self = self\<lparr>lrf_embedded := Some embedded\<rparr>;
                cov = np_matmul (np_T embedded) embedded;
                (w, v) = eigsh lib cov 1 ''LM''
            in (None, self\<lparr>lrf_vec := Some v\<rparr>)))"

text \<open>
  \<^verbatim>\<open>fit(X)\<close>, lines 258 to 279. The array \<^verbatim>\<open>X\<close> is the list of its clouds together with
  \<open>X_dim\<close>, its third extent \<^verbatim>\<open>X.shape[2]\<close>, which the list does not record when the array
  holds no point. \<^verbatim>\<open>fit\<close> stores it; its other use, as the row length of the flattened
  input of line 272, is the length of the points that \<open>concat X\<close> lists.
\<close>

definition LinearRandomFeatureManifold_fit ::
  "('s, 'kw) libraries \<Rightarrow> ('s, 'kw) LinearRandomFeatureManifold \<Rightarrow> nat \<Rightarrow> real list list list
   \<Rightarrow> py_error option \<times> ('s, 'kw) LinearRandomFeatureManifold" where
  "LinearRandomFeatureManifold_fit lib self X_dim X =
     (let self = self\<lparr>lrf_n_points := Some (length X), lrf_M := Some (shape1 X),
                       lrf_dim := Some X_dim\<rparr>
      in if lrf_method self = ''rff''
         then fit_embedding lib self
                (RBFSampler lib (lrf_gamma self) (lrf_n_components self) (lrf_kwargs self)) X
         else if lrf_method self = ''nystroem''
         then fit_embedding lib self
                (Nystroem lib (lrf_kernel self) (lrf_n_components self) (lrf_kwargs self)) X
         else (Some (ValueError fit_message), self))"

text \<open>
  The contract of \<^verbatim>\<open>eigsh(C, k=1, which="LM")\<close>, from scipy's documentation: it returns
  one eigenvalue and a matrix whose single column is an eigenvector for it, and no
  eigenvalue of \<open>C\<close> is larger in magnitude.
\<close>

definition mat_vec :: "mat \<Rightarrow> vec \<Rightarrow> vec" where
  "mat_vec C v = map (\<lambda>row. sum_list (map2 (*) row v)) C"

definition eigenpair :: "mat \<Rightarrow> real \<Rightarrow> vec \<Rightarrow> bool" where
  "eigenpair C lam v \<longleftrightarrow>
     length v = length C \<and> (\<exists>x\<in>set v. x \<noteq> 0) \<and> mat_vec C v = map (\<lambda>x. lam * x) v"

definition eigsh_LM1_contract :: "('s, 'kw) libraries \<Rightarrow> mat \<Rightarrow> bool" where
  "eigsh_LM1_contract lib C \<longleftrightarrow>
     (case eigsh lib C 1 ''LM'' of
        (w, V) \<Rightarrow> length w = 1 \<and> eigenpair C (w ! 0) (map (\<lambda>r. r ! 0) V)
                  \<and> (\<forall>mu u. eigenpair C mu u \<longrightarrow> \<bar>mu\<bar> \<le> \<bar>w ! 0\<bar>))"

text \<open>
  \<^verbatim>\<open>KernelBurstTransitionManifold\<close>: the attributes, and \<^verbatim>\<open>fit\<close> around the matrix
  assembly above. The eigensolver may raise; then \<^verbatim>\<open>rc\<close> and \<^verbatim>\<open>distMat\<close> are not
  assigned. \<^verbatim>\<open>diffusionMaps\<close> is called with its defaults \<open>n_components = 10\<close> and
  \<open>alpha = 0.5\<close>.
\<close>

record ('p, 'e) KernelBurstTransitionManifold =
  kb_kernel :: "'p list \<Rightarrow> 'p list \<Rightarrow> mat"
  kb_epsi :: real
  kb_M :: "nat option"
  kb_rc :: "'e option"
  kb_distMat :: "mat option"

definition KernelBurstTransitionManifold_fit ::
  "(mat \<Rightarrow> nat \<Rightarrow> mat \<Rightarrow> py_error + 'e) \<Rightarrow> ('p, 'e) KernelBurstTransitionManifold \<Rightarrow> 'p list list
   \<Rightarrow> py_error option \<times> ('p, 'e) KernelBurstTransitionManifold" where
  "KernelBurstTransitionManifold_fit sla_eigs self X =
     (let self = self\<lparr>kb_M := Some (shape1 X)\<rparr>;
          distMat = KernelBurst_distMat (kb_kernel self) X
      in case diffusionMaps sla_eigs distMat 10 (kb_epsi self) (1/2) of
           Inl e \<Rightarrow> (Some e, self)
         | Inr eigs \<Rightarrow> (None, self\<lparr>kb_rc := Some eigs, kb_distMat := Some distMat\<rparr>))"

section \<open>Concrete inputs\<close>

text \<open>
  A distance matrix on which the normalisation of line 45 is traced by hand: four points,
  the first at distance 0 of the others, which are at distance \<open>sqrt (ln 8)\<close> of each
  other, so that the entries of the kernel matrix are \<open>1\<close> and \<open>1/8\<close>. It is run with the
  defaults \<open>epsi = 1\<close> and \<open>alpha = 0.5\<close>.
\<close>

definition dm_example_distMat :: mat where
  "dm_example_distMat =
     [[0, 0, 0, 0],
      [0, 0, sqrt (ln 8), sqrt (ln 8)],
      [0, sqrt (ln 8), 0, sqrt (ln 8)],
      [0, sqrt (ln 8), sqrt (ln 8), 0]]"

text \<open>
  A small stand-in for the density estimators and the quadrature, to run
  \<^verbatim>\<open>L2BurstTransitionManifold.fit\<close> on: the estimator keeps its cloud, its log-density at a
  point is minus the sum of the squared distances to the points of the cloud, and the
  quadrature is the rectangle rule with one node. The object has the weight \<open>rho = 1\<close> on
  the unit square.
\<close>

definition toy_density :: "(real \<times> real) list density_libraries" where
  "toy_density =
     \<lparr>KernelDensity_fit = (\<lambda>b cloud. cloud),
      score_samples = (\<lambda>kde x y. - (\<Sum>p\<leftarrow>kde. (x - fst p) ^ 2 + (y - snd p) ^ 2)),
      dblquad = (\<lambda>f a b g h. (f a g * (b - a) * (h - g), 0))\<rparr>"

definition toy_L2Burst :: L2BurstTransitionManifold where
  "toy_L2Burst =
     \<lparr>l2_rho = (\<lambda>x y. 1), l2_epsi = 1, l2_domain = [[0, 0], [1, 1]], l2_kde_epsi = 1/10,
      l2_distMat = None\<rparr>"

text \<open>
  A small stand-in for the library, to run \<^verbatim>\<open>fit\<close> on: the feature map sends a point to
  the sum of its coordinates, and the solver answers for a \<open>1 \<times> 1\<close> matrix.
\<close>

definition toy_libraries :: "(unit, unit) libraries" where
  "toy_libraries =
     \<lparr>RBFSampler = (\<lambda>g n kw. ()), Nystroem = (\<lambda>k n kw. ()),
      fit_transform = (\<lambda>s X. ((), map (\<lambda>p. [sum_list p]) X)),
      transform = (\<lambda>s X. map (\<lambda>p. [sum_list p]) X),
      eigsh = (\<lambda>C k which. ([C ! 0 ! 0], [[1]]))\<rparr>"

text \<open>
  A small stand-in for the generator: seeding accepts \<open>0 \<le> seed < 2\<^sup>3\<^sup>2\<close> as numpy does,
  and the draws are read off a counter.
\<close>

definition toy_rng :: "nat np_random" where
  "toy_rng =
     \<lparr>np_random_seed =
        (\<lambda>s. if 0 \<le> s \<and> s < 2 ^ 32 then Inr (nat s)
              else Inl (ValueError ''Seed must be between 0 and 2**32 - 1'')),
      np_random_uniform =
        (\<lambda>lo hi (r, c) g.
           (map (\<lambda>i. map (\<lambda>j. lo + (hi - lo) * real ((g + i * c + j) mod 10) / 10) [0..<c]) [0..<r],
            g + r * c))\<rparr>"

section \<open>Properties of the array operations\<close>

lemma has_shape_length: "has_shape n m A \<Longrightarrow> length A = n"
  by (simp add: has_shape_def)

lemma has_shape_row: "has_shape n m A \<Longrightarrow> i < n \<Longrightarrow> length (A ! i) = m"
  by (auto simp: has_shape_def list_all_length)

lemma has_shapeI: "length A = n \<Longrightarrow> (\<And>i. i < n \<Longrightarrow> length (A ! i) = m) \<Longrightarrow> has_shape n m A"
  by (auto simp: has_shape_def list_all_length)

lemma np_sum_axis0_length: "has_shape n m A \<Longrightarrow> 0 < n \<Longrightarrow> length (np_sum_axis0 A) = m"
  by (cases A) (auto simp: np_sum_axis0_def has_shape_def)

lemma np_sum_axis0_nth:
  "has_shape n m A \<Longrightarrow> 0 < n \<Longrightarrow> j < m \<Longrightarrow> np_sum_axis0 A ! j = sum_list (map (\<lambda>row. row ! j) A)"
  by (cases A) (auto simp: np_sum_axis0_def has_shape_def)

lemma foldl_vec_add_length:
  "\<forall>r\<in>set rs. length r = length acc \<Longrightarrow> length (foldl vec_add acc rs) = length acc"
  by (induction rs arbitrary: acc) (auto simp: vec_add_def)

lemma foldl_vec_add_nth:
  "\<forall>r\<in>set rs. length r = length acc \<Longrightarrow> j < length acc \<Longrightarrow>
   foldl vec_add acc rs ! j = acc ! j + sum_list (map (\<lambda>r. r ! j) rs)"
proof (induction rs arbitrary: acc)
  case Nil
  then show ?case by simp
next
  case (Cons r rs)
  have len: "length (vec_add acc r) = length acc"
    using Cons.prems by (simp add: vec_add_def)
  have "foldl vec_add (vec_add acc r) rs ! j =
        vec_add acc r ! j + sum_list (map (\<lambda>r. r ! j) rs)"
    using Cons.prems len by (intro Cons.IH) auto
  moreover have "vec_add acc r ! j = acc ! j + r ! j"
    using Cons.prems by (simp add: vec_add_def)
  ultimately show ?case by simp
qed

lemma py_sum_Cons: "py_sum (r # rs) = foldl vec_add r rs"
proof -
  have h: "map (\<lambda>x. 0 + x) r = r" by (induction r) simp_all
  show ?thesis by (simp only: py_sum_def list.case h)
qed

lemma py_sum_eq_axis0: "has_shape n m A \<Longrightarrow> py_sum A = np_sum_axis0 A"
proof (cases A)
  case Nil
  then show ?thesis by (simp add: py_sum_def np_sum_axis0_def)
next
  case (Cons r rs)
  assume sh: "has_shape n m A"
  have all: "\<forall>x\<in>set rs. length x = length r"
    using sh Cons by (auto simp: has_shape_def list_all_iff)
  show ?thesis
  proof (rule nth_equalityI)
    show "length (py_sum A) = length (np_sum_axis0 A)"
      using foldl_vec_add_length [OF all] Cons by (simp add: py_sum_Cons np_sum_axis0_def)
  next
    fix j assume "j < length (py_sum A)"
    then have j: "j < length r"
      using foldl_vec_add_length [OF all] Cons by (simp add: py_sum_Cons)
    then show "py_sum A ! j = np_sum_axis0 A ! j"
      using foldl_vec_add_nth [OF all, of j] Cons by (simp add: py_sum_Cons np_sum_axis0_def)
  qed
qed

lemma mat_div_shape: "has_shape n m A \<Longrightarrow> has_shape n m B \<Longrightarrow> has_shape n m (mat_div A B)"
  by (auto simp: has_shape_def mat_div_def list_all_length)

lemma mat_div_nth:
  "has_shape n m A \<Longrightarrow> has_shape n m B \<Longrightarrow> i < n \<Longrightarrow> j < m \<Longrightarrow>
   mat_div A B ! i ! j = A ! i ! j / B ! i ! j"
  by (auto simp: has_shape_def mat_div_def list_all_length)

lemma np_outer_shape: "has_shape (length u) (length v) (np_outer u v)"
  by (auto simp: has_shape_def np_outer_def list_all_length)

lemma np_outer_nth: "i < length u \<Longrightarrow> j < length v \<Longrightarrow> np_outer u v ! i ! j = u ! i * v ! j"
  by (simp add: np_outer_def)

lemma np_tile_rows_shape: "has_shape n (length v) (np_tile_rows v n)"
  by (auto simp: has_shape_def np_tile_rows_def list_all_length)

lemma np_tile_rows_nth: "i < n \<Longrightarrow> np_tile_rows v n ! i ! j = v ! j"
  by (simp add: np_tile_rows_def)

section \<open>The stages of \<^verbatim>\<open>diffusionMaps\<close>\<close>

lemma dm_kernelMat1_shape: "has_shape n m D \<Longrightarrow> has_shape n m (dm_kernelMat1 D epsi)"
  by (auto simp: has_shape_def dm_kernelMat1_def list_all_length)

lemma dm_kernelMat1_nth:
  "has_shape n m D \<Longrightarrow> i < n \<Longrightarrow> j < m \<Longrightarrow>
   dm_kernelMat1 D epsi ! i ! j = exp (- ((D ! i ! j) ^ 2) / epsi)"
  by (auto simp: has_shape_def dm_kernelMat1_def list_all_length)

lemma sum_list_pos_nonempty: "xs \<noteq> [] \<Longrightarrow> \<forall>x\<in>set xs. (0::real) < x \<Longrightarrow> 0 < sum_list xs"
  by (induction xs) (auto simp: add_pos_nonneg sum_list_nonneg less_imp_le)

lemma col_sum_pos:
  fixes A :: mat
  assumes "has_shape n m A" "0 < n" "j < m" "\<And>i. i < n \<Longrightarrow> 0 < A ! i ! j"
  shows "0 < sum_list (map (\<lambda>row. row ! j) A)"
proof -
  have "map (\<lambda>row. row ! j) A \<noteq> []" using assms by (auto simp: has_shape_def)
  moreover have "\<forall>x\<in>set (map (\<lambda>row. row ! j) A). 0 < x"
    using assms by (auto simp: has_shape_def in_set_conv_nth)
  ultimately show ?thesis by (rule sum_list_pos_nonempty)
qed

lemma dm_rowsum_length: "has_shape n n D \<Longrightarrow> 0 < n \<Longrightarrow> length (dm_rowsum D epsi) = n"
  by (simp add: dm_rowsum_def np_sum_axis0_length [OF dm_kernelMat1_shape])

lemma dm_rowsum_nth:
  "has_shape n n D \<Longrightarrow> j < n \<Longrightarrow>
   dm_rowsum D epsi ! j = sum_list (map (\<lambda>row. row ! j) (dm_kernelMat1 D epsi))"
  using np_sum_axis0_nth [OF dm_kernelMat1_shape, of n n D j epsi] by (simp add: dm_rowsum_def)

lemma dm_rowsum_pos:
  assumes "has_shape n n D" "j < n"
  shows "0 < dm_rowsum D epsi ! j"
proof -
  have "0 < n" using assms by simp
  then show ?thesis
    using assms
    by (simp add: dm_rowsum_nth col_sum_pos [OF dm_kernelMat1_shape [OF assms(1)]] dm_kernelMat1_nth)
qed

lemma dm_kernelMat2_shape:
  assumes "has_shape n n D" "0 < n"
  shows "has_shape n n (dm_kernelMat2 D epsi alpha)"
proof -
  have "has_shape n n (np_outer (map (\<lambda>r. r powr alpha) (dm_rowsum D epsi))
                                 (map (\<lambda>r. r powr alpha) (dm_rowsum D epsi)))"
    using np_outer_shape [of "map (\<lambda>r. r powr alpha) (dm_rowsum D epsi)"
                             "map (\<lambda>r. r powr alpha) (dm_rowsum D epsi)"]
    by (simp add: dm_rowsum_length [OF assms])
  then show ?thesis
    unfolding dm_kernelMat2_def by (intro mat_div_shape dm_kernelMat1_shape assms)
qed

lemma dm_kernelMat2_nth:
  assumes "has_shape n n D" "i < n" "j < n"
  shows "dm_kernelMat2 D epsi alpha ! i ! j =
         dm_kernelMat1 D epsi ! i ! j /
           ((dm_rowsum D epsi ! i) powr alpha * (dm_rowsum D epsi ! j) powr alpha)"
proof -
  have n: "0 < n" using assms by simp
  have len: "length (dm_rowsum D epsi) = n" by (rule dm_rowsum_length [OF assms(1) n])
  have sh: "has_shape n n (np_outer (map (\<lambda>r. r powr alpha) (dm_rowsum D epsi))
                                     (map (\<lambda>r. r powr alpha) (dm_rowsum D epsi)))"
    using np_outer_shape [of "map (\<lambda>r. r powr alpha) (dm_rowsum D epsi)"
                             "map (\<lambda>r. r powr alpha) (dm_rowsum D epsi)"]
    by (simp add: len)
  show ?thesis
    unfolding dm_kernelMat2_def
    using assms len
    by (simp add: mat_div_nth [OF dm_kernelMat1_shape [OF assms(1)] sh] np_outer_nth)
qed

lemma dm_kernelMat2_pos:
  assumes "has_shape n n D" "i < n" "j < n"
  shows "0 < dm_kernelMat2 D epsi alpha ! i ! j"
proof -
  have "0 < dm_rowsum D epsi ! i" "0 < dm_rowsum D epsi ! j"
    using assms by (simp_all add: dm_rowsum_pos)
  then have "0 < (dm_rowsum D epsi ! i) powr alpha * (dm_rowsum D epsi ! j) powr alpha"
    by simp
  moreover have "0 < dm_kernelMat1 D epsi ! i ! j"
    using assms by (simp add: dm_kernelMat1_nth)
  ultimately show ?thesis
    using assms by (simp add: dm_kernelMat2_nth)
qed

lemma dm_colsum2_pos:
  assumes "has_shape n n D" "j < n"
  shows "0 < py_sum (dm_kernelMat2 D epsi alpha) ! j"
proof -
  have n: "0 < n" using assms by simp
  have sh: "has_shape n n (dm_kernelMat2 D epsi alpha)"
    by (rule dm_kernelMat2_shape [OF assms(1) n])
  have "0 < sum_list (map (\<lambda>row. row ! j) (dm_kernelMat2 D epsi alpha))"
    using assms by (intro col_sum_pos [OF sh n]) (simp_all add: dm_kernelMat2_pos)
  then show ?thesis
    using assms n by (simp add: py_sum_eq_axis0 [OF sh] np_sum_axis0_nth [OF sh])
qed

lemma dm_kernelMat3_shape:
  assumes "has_shape n n D" "0 < n"
  shows "has_shape n n (dm_kernelMat3 D epsi alpha)"
proof -
  have sh: "has_shape n n (dm_kernelMat2 D epsi alpha)"
    by (rule dm_kernelMat2_shape [OF assms])
  have "length (py_sum (dm_kernelMat2 D epsi alpha)) = n"
    using assms by (simp add: py_sum_eq_axis0 [OF sh] np_sum_axis0_length [OF sh])
  then have "has_shape n n (np_tile_rows (py_sum (dm_kernelMat2 D epsi alpha)) (length D))"
    using np_tile_rows_shape [of "length D" "py_sum (dm_kernelMat2 D epsi alpha)"] assms
    by (simp add: has_shape_length)
  then show ?thesis
    unfolding dm_kernelMat3_def by (intro mat_div_shape sh)
qed

lemma dm_kernelMat3_nth:
  assumes "has_shape n n D" "i < n" "j < n"
  shows "dm_kernelMat3 D epsi alpha ! i ! j =
         dm_kernelMat2 D epsi alpha ! i ! j / py_sum (dm_kernelMat2 D epsi alpha) ! j"
proof -
  have n: "0 < n" using assms by simp
  have lenD: "length D = n" using assms by (simp add: has_shape_length)
  have sh: "has_shape n n (dm_kernelMat2 D epsi alpha)"
    by (rule dm_kernelMat2_shape [OF assms(1) n])
  have "length (py_sum (dm_kernelMat2 D epsi alpha)) = n"
    using n by (simp add: py_sum_eq_axis0 [OF sh] np_sum_axis0_length [OF sh])
  then have sh2: "has_shape n n (np_tile_rows (py_sum (dm_kernelMat2 D epsi alpha)) n)"
    using np_tile_rows_shape [of n "py_sum (dm_kernelMat2 D epsi alpha)"] by simp
  show ?thesis
    unfolding dm_kernelMat3_def lenD
    using assms by (simp add: mat_div_nth [OF sh sh2] np_tile_rows_nth)
qed

lemma sum_list_map_nth: "sum_list (map f xs) = sum_list (map (\<lambda>i. f (xs ! i)) [0..<length xs])"
proof -
  have "map f xs = map (\<lambda>i. f (xs ! i)) [0..<length xs]"
    by (rule nth_equalityI) simp_all
  then show ?thesis by simp
qed

lemma np_diag_nth: "i < length v \<Longrightarrow> j < length v \<Longrightarrow> np_diag v ! i ! j = (if i = j then v ! i else 0)"
  by (simp add: np_diag_def)

lemma diffusionMaps_stages:
  "diffusionMaps sla_eigs distMat n_components epsi alpha =
     sla_eigs (dm_kernelMat3 distMat epsi alpha) n_components (dm_weightMat distMat epsi alpha)"
  by (simp add: diffusionMaps_def Let_def dm_weightMat_def dm_kernelMat3_def dm_kernelMat2_def
      dm_rowsum_def dm_kernelMat1_def)

lemma symmetric_matD: "symmetric_mat A \<Longrightarrow> i < length A \<Longrightarrow> j < length A \<Longrightarrow> A ! i ! j = A ! j ! i"
  by (simp add: symmetric_mat_def list_all_length)

lemma dm_rowsum_symmetric:
  assumes "has_shape n n D" "symmetric_mat D" "i < n"
  shows "dm_rowsum D epsi ! i = sum_list (dm_kernelMat1 D epsi ! i)"
proof -
  let ?K = "dm_kernelMat1 D epsi"
  have sh: "has_shape n n ?K" by (rule dm_kernelMat1_shape [OF assms(1)])
  have len: "length D = n" using assms(1) by (rule has_shape_length)
  have "dm_rowsum D epsi ! i = sum_list (map (\<lambda>row. row ! i) ?K)"
    using assms by (simp add: dm_rowsum_nth)
  also have "\<dots> = sum_list (map (\<lambda>k. ?K ! k ! i) [0..<n])"
    using sum_list_map_nth [of "\<lambda>row. row ! i" ?K] sh by (simp add: has_shape_length)
  also have "\<dots> = sum_list (map (\<lambda>k. ?K ! i ! k) [0..<n])"
    using assms len
    by (intro arg_cong [where f = sum_list] map_cong refl)
       (simp add: dm_kernelMat1_nth symmetric_matD [of D])
  also have "\<dots> = sum_list (?K ! i)"
    using sum_list_map_nth [of "\<lambda>x. x" "?K ! i"] has_shape_row [OF sh assms(3)] by simp
  finally show ?thesis .
qed

section \<open>Claims on \<^verbatim>\<open>diffusionMaps\<close> and \<^verbatim>\<open>evaluateDiffusionMaps\<close>\<close>

text \<open>
  Claim C3, as amended. For every symmetric input matrix \<open>M\<close> of shape \<open>(n, n)\<close>, every
  \<open>epsi > 0\<close> and every \<open>alpha\<close>, \<^verbatim>\<open>diffusionMaps\<close> always converts \<open>M\<close> elementwise to
  \<open>K[i,j] = exp(-M[i,j]\<^sup>2 / epsi)\<close> (the function has no flag that skips the conversion),
  then divides by the density: \<open>K'[i,j] = K[i,j] / (rowsum[i]^alpha * rowsum[j]^alpha)\<close>,
  where \<open>rowsum\<close> is computed as the column sums of \<open>K\<close>, which for a symmetric \<open>M\<close> are
  the row sums \<open>rowsum[i] = sum_j K[i,j]\<close>; the normalisation of line 45 and the weight
  matrix are computed from \<open>K'\<close> afterwards.
\<close>

theorem diffusionMaps_kernel_and_density:
  assumes "has_shape n n M" and "symmetric_mat M" and "0 < epsi" and "i < n" and "j < n"
  shows "dm_kernelMat1 M epsi ! i ! j = exp (- ((M ! i ! j) ^ 2) / epsi)
       \<and> dm_rowsum M epsi ! i = sum_list (dm_kernelMat1 M epsi ! i)
       \<and> dm_kernelMat2 M epsi alpha ! i ! j =
           dm_kernelMat1 M epsi ! i ! j /
             ((dm_rowsum M epsi ! i) powr alpha * (dm_rowsum M epsi ! j) powr alpha)
       \<and> diffusionMaps sla_eigs M n_components epsi alpha =
           (let K' = dm_kernelMat2 M epsi alpha;
                P = mat_div K' (np_tile_rows (py_sum K') n)
            in sla_eigs P n_components (np_diag (py_sum P)))"
proof (intro conjI)
  show "dm_kernelMat1 M epsi ! i ! j = exp (- ((M ! i ! j) ^ 2) / epsi)"
    using assms by (simp add: dm_kernelMat1_nth)
  show "dm_rowsum M epsi ! i = sum_list (dm_kernelMat1 M epsi ! i)"
    using assms by (simp add: dm_rowsum_symmetric)
  show "dm_kernelMat2 M epsi alpha ! i ! j =
          dm_kernelMat1 M epsi ! i ! j /
            ((dm_rowsum M epsi ! i) powr alpha * (dm_rowsum M epsi ! j) powr alpha)"
    using assms by (simp add: dm_kernelMat2_nth)
  have "length M = n" using assms(1) by (rule has_shape_length)
  then show "diffusionMaps sla_eigs M n_components epsi alpha =
           (let K' = dm_kernelMat2 M epsi alpha;
                P = mat_div K' (np_tile_rows (py_sum K') n)
            in sla_eigs P n_components (np_diag (py_sum P)))"
    by (simp add: diffusionMaps_stages dm_weightMat_def dm_kernelMat3_def Let_def)
qed

theorem diffusionMaps_kernel_and_density_witness:
  "has_shape 2 2 [[0, sqrt (ln 2)], [sqrt (ln 2), 0]]
   \<and> symmetric_mat [[0, sqrt (ln 2)], [sqrt (ln 2), 0]]
   \<and> dm_kernelMat1 [[0, sqrt (ln 2)], [sqrt (ln 2), 0]] 1 ! 0 ! 1 = 1/2
   \<and> dm_rowsum [[0, sqrt (ln 2)], [sqrt (ln 2), 0]] 1 ! 0 = 3/2
   \<and> dm_kernelMat2 [[0, sqrt (ln 2)], [sqrt (ln 2), 0]] 1 1 ! 0 ! 1 = 2/9"
proof -
  let ?M = "[[0, sqrt (ln 2)], [sqrt (ln 2), 0]] :: mat"
  have sh: "has_shape 2 2 ?M" by (simp add: has_shape_def)
  have sy: "symmetric_mat ?M" by (simp add: symmetric_mat_def upt_rec [of 0] upt_rec [of 1])
  have K: "dm_kernelMat1 ?M 1 = [[1, 1/2], [1/2, 1]]"
    by (simp add: dm_kernelMat1_def exp_minus)
  have r: "dm_rowsum ?M 1 = [3/2, 3/2]"
    by (simp add: dm_rowsum_def K np_sum_axis0_def upt_rec [of 0] upt_rec [of 1])
  have "dm_kernelMat2 ?M 1 1 ! 0 ! 1 =
          dm_kernelMat1 ?M 1 ! 0 ! 1 / ((dm_rowsum ?M 1 ! 0) powr 1 * (dm_rowsum ?M 1 ! 1) powr 1)"
    using diffusionMaps_kernel_and_density [OF sh sy, where epsi = 1 and i = 0 and j = 1
        and alpha = 1 and sla_eigs = "\<lambda>P k W. (P, W)" and n_components = 10]
    by simp
  then have "dm_kernelMat2 ?M 1 1 ! 0 ! 1 = 2/9"
    by (simp add: K r)
  then show ?thesis
    using sh sy by (simp add: K r)
qed

text \<open>
  Claim C3 as stated fails twice. A matrix that already is a Gram matrix, here the
  \<open>1 \<times> 1\<close> matrix \<open>[[1]]\<close>, is converted all the same: no argument of the function
  keeps it. And on an input that is not symmetric \<^verbatim>\<open>rowsum[0]\<close> is the sum of column 0,
  here \<open>3/2\<close>, not the sum \<open>2\<close> of row 0, so \<open>K'[0,0]\<close> is \<open>4/9\<close> and not \<open>1/4\<close>.
\<close>

theorem diffusionMaps_conversion_counterexample:
  "\<not> (\<exists>epsi. 0 < epsi \<and> dm_kernelMat1 [[1]] epsi = [[1]])
   \<and> dm_rowsum [[0, 0], [sqrt (ln 2), 0]] 1 ! 0 = 3/2
   \<and> sum_list (dm_kernelMat1 [[0, 0], [sqrt (ln 2), 0]] 1 ! 0) = 2
   \<and> dm_kernelMat2 [[0, 0], [sqrt (ln 2), 0]] 1 1 ! 0 ! 0 = 4/9"
proof (intro conjI)
  show "\<not> (\<exists>epsi. 0 < epsi \<and> dm_kernelMat1 [[1]] epsi = [[1]])"
    by (simp add: dm_kernelMat1_def)
  have K: "dm_kernelMat1 [[0, 0], [sqrt (ln 2), 0]] 1 = [[1, 1], [1/2, 1]]"
    by (simp add: dm_kernelMat1_def exp_minus)
  show r: "dm_rowsum [[0, 0], [sqrt (ln 2), 0]] 1 ! 0 = 3/2"
    by (simp add: dm_rowsum_def K np_sum_axis0_def upt_rec [of 0] upt_rec [of 1])
  show "sum_list (dm_kernelMat1 [[0, 0], [sqrt (ln 2), 0]] 1 ! 0) = 2"
    by (simp add: K)
  have r': "dm_rowsum [[0, 0], [sqrt (ln 2), 0]] 1 = [3/2, 2]"
    by (simp add: dm_rowsum_def K np_sum_axis0_def upt_rec [of 0] upt_rec [of 1])
  show "dm_kernelMat2 [[0, 0], [sqrt (ln 2), 0]] 1 1 ! 0 ! 0 = 4/9"
    unfolding dm_kernelMat2_def r' K by (simp add: mat_div_def np_outer_def)
qed

lemma py_sum_kernelMat3_length:
  assumes "has_shape n n D" "0 < n"
  shows "length (py_sum (dm_kernelMat3 D epsi alpha)) = n"
proof -
  have sh: "has_shape n n (dm_kernelMat3 D epsi alpha)" by (rule dm_kernelMat3_shape [OF assms])
  show ?thesis using assms by (simp add: py_sum_eq_axis0 [OF sh] np_sum_axis0_length [OF sh])
qed

text \<open>
  Claim C4, as amended. The diagonal weight matrix handed to the eigensolver as mass
  matrix is \<open>diag(colsum(kernelMat))\<close> with \<^verbatim>\<open>kernelMat\<close> read after the normalisation of
  line 45 has overwritten it, not the density-normalised \<open>K'\<close> from before that line:
  entry \<open>(i, i)\<close> is the sum of column \<open>i\<close> of \<^verbatim>\<open>kernelMat\<close> after line 45 and the entries
  off the diagonal are 0. The statement says where the weights are read from; it says
  nothing on the values that line 45 leaves in \<^verbatim>\<open>kernelMat\<close>.
\<close>

theorem diffusionMaps_weightMat_after_line_45:
  assumes "has_shape n n distMat" and "0 < epsi" and "i < n" and "j < n"
  shows "diffusionMaps sla_eigs distMat n_components epsi alpha =
           sla_eigs (dm_kernelMat3 distMat epsi alpha) n_components (dm_weightMat distMat epsi alpha)
       \<and> dm_weightMat distMat epsi alpha ! i ! j =
           (if i = j then (\<Sum>row\<leftarrow>dm_kernelMat3 distMat epsi alpha. row ! i) else 0)"
proof -
  have n: "0 < n" using assms by simp
  have sh: "has_shape n n (dm_kernelMat3 distMat epsi alpha)"
    by (rule dm_kernelMat3_shape [OF assms(1) n])
  have len: "length (py_sum (dm_kernelMat3 distMat epsi alpha)) = n"
    by (rule py_sum_kernelMat3_length [OF assms(1) n])
  have col: "py_sum (dm_kernelMat3 distMat epsi alpha) ! i =
             (\<Sum>row\<leftarrow>dm_kernelMat3 distMat epsi alpha. row ! i)"
    using assms n by (simp add: py_sum_eq_axis0 [OF sh] np_sum_axis0_nth [OF sh])
  have "dm_weightMat distMat epsi alpha ! i ! j =
          (if i = j then (\<Sum>row\<leftarrow>dm_kernelMat3 distMat epsi alpha. row ! i) else 0)"
    unfolding dm_weightMat_def using assms len col by (auto simp: np_diag_nth)
  then show ?thesis
    by (simp add: diffusionMaps_stages)
qed

lemma zeros_kernelMat2: "dm_kernelMat2 [[0, 0], [0, 0]] 1 1 = [[1/4, 1/4], [1/4, 1/4]]"
proof -
  have K: "dm_kernelMat1 [[0, 0], [0, 0]] 1 = [[1, 1], [1, 1]]"
    by (simp add: dm_kernelMat1_def)
  have r: "dm_rowsum [[0, 0], [0, 0]] 1 = [2, 2]"
    by (simp add: dm_rowsum_def K np_sum_axis0_def upt_rec [of 0] upt_rec [of 1])
  show ?thesis
    unfolding dm_kernelMat2_def r K by (simp add: mat_div_def np_outer_def)
qed

lemma zeros_kernelMat3: "dm_kernelMat3 [[0, 0], [0, 0]] 1 1 = [[1/2, 1/2], [1/2, 1/2]]"
proof -
  have c: "py_sum [[1/4, 1/4], [1/4, 1/4]] = [1/2, 1/2]"
    by (simp add: py_sum_def vec_add_def)
  show ?thesis
    unfolding dm_kernelMat3_def zeros_kernelMat2 c
    by (simp add: mat_div_def np_tile_rows_def numeral_eq_Suc)
qed

lemma zeros_weightMat: "dm_weightMat [[0, 0], [0, 0]] 1 1 = [[1, 0], [0, 1]]"
proof -
  have c: "py_sum [[1/2, 1/2], [1/2, 1/2]] = [1, 1]"
    by (simp add: py_sum_def vec_add_def)
  show ?thesis
    unfolding dm_weightMat_def zeros_kernelMat3 c
    by (simp add: np_diag_def upt_rec [of 0] upt_rec [of 1])
qed

theorem diffusionMaps_weightMat_after_line_45_witness:
  "has_shape 2 2 [[0, 0], [0, 0::real]]
   \<and> dm_weightMat [[0, 0], [0, 0]] 1 1 ! 0 ! 0 = (\<Sum>row\<leftarrow>dm_kernelMat3 [[0, 0], [0, 0]] 1 1. row ! 0)
   \<and> dm_weightMat [[0, 0], [0, 0]] 1 1 ! 0 ! 1 = 0"
proof -
  let ?W = "dm_weightMat [[0, 0], [0, 0]] 1 1"
  let ?P = "dm_kernelMat3 [[0, 0], [0, 0]] 1 1"
  have sh: "has_shape 2 2 [[0, 0], [0, 0::real]]" by (simp add: has_shape_def)
  have "?W ! 0 ! 0 = (if (0::nat) = 0 then (\<Sum>row\<leftarrow>?P. row ! 0) else 0)"
    by (rule diffusionMaps_weightMat_after_line_45 [OF sh, where epsi = 1 and i = 0 and j = 0
        and alpha = 1 and sla_eigs = "\<lambda>P k W. (P, W)" and n_components = 10,
        THEN conjunct2]) simp_all
  moreover have "?W ! 0 ! 1 = (if (0::nat) = 1 then (\<Sum>row\<leftarrow>?P. row ! 0) else 0)"
    by (rule diffusionMaps_weightMat_after_line_45 [OF sh, where epsi = 1 and i = 0 and j = 1
        and alpha = 1 and sla_eigs = "\<lambda>P k W. (P, W)" and n_components = 10,
        THEN conjunct2]) simp_all
  ultimately show ?thesis using sh by simp
qed

text \<open>
  Claim C4 as stated fails on the \<open>2 \<times> 2\<close> zero distance matrix with \<open>epsi = 1\<close> and
  \<open>alpha = 1\<close>: the column sums of \<open>K'\<close> are \<open>1/2\<close>, the weights of the code are \<open>1\<close>.
\<close>

theorem diffusionMaps_weightMat_counterexample:
  "dm_weightMat [[0, 0], [0, 0]] 1 1 = [[1, 0], [0, 1]]
   \<and> np_diag (np_sum_axis0 (dm_kernelMat2 [[0, 0], [0, 0]] 1 1)) = [[1/2, 0], [0, 1/2]]
   \<and> dm_weightMat [[0, 0], [0, 0]] 1 1 \<noteq> np_diag (np_sum_axis0 (dm_kernelMat2 [[0, 0], [0, 0]] 1 1))"
proof -
  have d: "np_diag (np_sum_axis0 (dm_kernelMat2 [[0, 0], [0, 0]] 1 1)) = [[1/2, 0], [0, 1/2]]"
    unfolding zeros_kernelMat2
    by (simp add: np_sum_axis0_def np_diag_def upt_rec [of 0] upt_rec [of 1])
  show ?thesis
    unfolding d zeros_weightMat by simp
qed

lemma dm_example_kernelMat1:
  "dm_kernelMat1 dm_example_distMat 1 =
     [[1, 1, 1, 1], [1, 1, 1/8, 1/8], [1, 1/8, 1, 1/8], [1, 1/8, 1/8, 1]]"
  by (simp add: dm_kernelMat1_def dm_example_distMat_def exp_minus)

lemma dm_example_rowsum: "dm_rowsum dm_example_distMat 1 = [4, 9/4, 9/4, 9/4]"
  by (simp add: dm_rowsum_def dm_example_kernelMat1 np_sum_axis0_def upt_rec [of 0] upt_rec [of 1] upt_rec [of 2] upt_rec [of 3])

lemma powr_half_4: "(4::real) powr (1/2) = 2"
proof -
  have "sqrt 4 = (2::real)" by (rule real_sqrt_unique) simp_all
  then show ?thesis by (simp add: powr_half_sqrt)
qed

lemma powr_half_9_4: "(9/4::real) powr (1/2) = 3/2"
proof -
  have "sqrt (9/4) = (3/2::real)" by (rule real_sqrt_unique) (simp_all add: power2_eq_square)
  then show ?thesis by (simp add: powr_half_sqrt)
qed

lemma dm_example_kernelMat2:
  "dm_kernelMat2 dm_example_distMat 1 (1/2) =
     [[1/4, 1/3, 1/3, 1/3], [1/3, 4/9, 1/18, 1/18], [1/3, 1/18, 4/9, 1/18], [1/3, 1/18, 1/18, 4/9]]"
  unfolding dm_kernelMat2_def dm_example_rowsum dm_example_kernelMat1
  by (simp add: mat_div_def np_outer_def powr_half_4 powr_half_9_4)

lemma dm_example_colsum2: "py_sum (dm_kernelMat2 dm_example_distMat 1 (1/2)) = [5/4, 8/9, 8/9, 8/9]"
  unfolding dm_example_kernelMat2 by (simp add: py_sum_def vec_add_def)

lemma dm_example_kernelMat3:
  "dm_kernelMat3 dm_example_distMat 1 (1/2) =
     [[1/5, 3/8, 3/8, 3/8], [4/15, 1/2, 1/16, 1/16], [4/15, 1/16, 1/2, 1/16], [4/15, 1/16, 1/16, 1/2]]"
proof -
  have len: "length dm_example_distMat = 4" by (simp add: dm_example_distMat_def)
  have "dm_kernelMat3 dm_example_distMat 1 (1/2) =
        mat_div (dm_kernelMat2 dm_example_distMat 1 (1/2)) (np_tile_rows [5/4, 8/9, 8/9, 8/9] 4)"
    by (simp only: dm_kernelMat3_def dm_example_colsum2 len)
  then show ?thesis
    by (simp add: dm_example_kernelMat2 mat_div_def np_tile_rows_def numeral_eq_Suc)
qed

text \<open>
  Claim C2 at this input. The kernel matrix is symmetric with positive row sums, and
  line 45 divides entry \<open>(i, j)\<close> by the sum of column \<open>j\<close>: every column of the result
  sums to 1, but its rows sum to \<open>53/40\<close> and \<open>107/120\<close>.
\<close>

theorem diffusionMaps_normalization_rows_example:
  "symmetric_mat (dm_kernelMat1 dm_example_distMat 1)
   \<and> map sum_list (dm_kernelMat1 dm_example_distMat 1) = [4, 9/4, 9/4, 9/4]
   \<and> map sum_list (dm_kernelMat3 dm_example_distMat 1 (1/2)) = [53/40, 107/120, 107/120, 107/120]
   \<and> py_sum (dm_kernelMat3 dm_example_distMat 1 (1/2)) = [1, 1, 1, 1]"
proof (intro conjI)
  show "symmetric_mat (dm_kernelMat1 dm_example_distMat 1)"
    unfolding dm_example_kernelMat1
    by (simp add: symmetric_mat_def upt_rec [of 0] upt_rec [of 1] upt_rec [of 2] upt_rec [of 3])
  show "map sum_list (dm_kernelMat1 dm_example_distMat 1) = [4, 9/4, 9/4, 9/4]"
    unfolding dm_example_kernelMat1 by simp
  show "map sum_list (dm_kernelMat3 dm_example_distMat 1 (1/2)) = [53/40, 107/120, 107/120, 107/120]"
    unfolding dm_example_kernelMat3 by simp
  show "py_sum (dm_kernelMat3 dm_example_distMat 1 (1/2)) = [1, 1, 1, 1]"
    unfolding dm_example_kernelMat3 by (simp add: py_sum_def vec_add_def)
qed

text \<open>
  Claim C6, as amended. For a result with \<open>m\<close> eigenpairs and every \<open>k \<ge> 0\<close>,
  \<^verbatim>\<open>evaluateDiffusionMaps(eigs, k)\<close> returns the array with \<open>min k m\<close> columns whose column
  \<open>j\<close> is the real part of eigenvector \<open>j\<close> times the real part of eigenvalue \<open>j\<close>. It never
  fails: for \<open>k > m\<close> the slices are clamped and the result is that for \<open>k = m\<close>.
\<close>

theorem evaluateDiffusionMaps_columns:
  assumes "length (fst eigs) = m" and "has_shape n m (snd eigs)" and "0 \<le> k"
  shows "has_shape n (min (nat k) m) (evaluateDiffusionMaps eigs k)
       \<and> (\<forall>i<n. \<forall>j<min (nat k) m.
            evaluateDiffusionMaps eigs k ! i ! j = Re (snd eigs ! i ! j) * Re (fst eigs ! j))
       \<and> (m \<le> nat k \<longrightarrow> evaluateDiffusionMaps eigs k = evaluateDiffusionMaps eigs (int m))"
proof (intro conjI allI impI)
  show "has_shape n (min (nat k) m) (evaluateDiffusionMaps eigs k)"
    using assms
    by (auto simp: has_shape_def evaluateDiffusionMaps_def py_slice_to_def list_all_length)
next
  fix i j assume "i < n" "j < min (nat k) m"
  then show "evaluateDiffusionMaps eigs k ! i ! j = Re (snd eigs ! i ! j) * Re (fst eigs ! j)"
    using assms
    by (auto simp: has_shape_def evaluateDiffusionMaps_def py_slice_to_def list_all_length)
next
  assume "m \<le> nat k"
  then show "evaluateDiffusionMaps eigs k = evaluateDiffusionMaps eigs (int m)"
    using assms
    by (auto simp: has_shape_def evaluateDiffusionMaps_def py_slice_to_def list_all_iff)
qed

theorem evaluateDiffusionMaps_columns_witness:
  "evaluateDiffusionMaps ([Complex 2 1, 3], [[Complex 1 1, 1], [1, - 1], [0, 5]]) 1 ! 2 ! 0 = 0
   \<and> has_shape 3 1 (evaluateDiffusionMaps ([Complex 2 1, 3], [[Complex 1 1, 1], [1, - 1], [0, 5]]) 1)
   \<and> evaluateDiffusionMaps ([Complex 2 1, 3], [[Complex 1 1, 1], [1, - 1], [0, 5]]) 5 =
       evaluateDiffusionMaps ([Complex 2 1, 3], [[Complex 1 1, 1], [1, - 1], [0, 5]]) 2"
proof -
  let ?e = "([Complex 2 1, 3], [[Complex 1 1, 1], [1, - 1], [0, 5]]) :: complex list \<times> complex list list"
  have l: "length (fst ?e) = 2" by simp
  have sh: "has_shape 3 2 (snd ?e)" by (simp add: has_shape_def)
  have a: "has_shape 3 (min (nat 1) 2) (evaluateDiffusionMaps ?e 1)
       \<and> (\<forall>i<3. \<forall>j<min (nat 1) 2.
            evaluateDiffusionMaps ?e 1 ! i ! j = Re (snd ?e ! i ! j) * Re (fst ?e ! j))
       \<and> (2 \<le> nat 1 \<longrightarrow> evaluateDiffusionMaps ?e 1 = evaluateDiffusionMaps ?e (int 2))"
    by (rule evaluateDiffusionMaps_columns [OF l sh]) simp
  have b: "has_shape 3 (min (nat 5) 2) (evaluateDiffusionMaps ?e 5)
       \<and> (\<forall>i<3. \<forall>j<min (nat 5) 2.
            evaluateDiffusionMaps ?e 5 ! i ! j = Re (snd ?e ! i ! j) * Re (fst ?e ! j))
       \<and> (2 \<le> nat 5 \<longrightarrow> evaluateDiffusionMaps ?e 5 = evaluateDiffusionMaps ?e (int 2))"
    by (rule evaluateDiffusionMaps_columns [OF l sh]) simp
  from a have "evaluateDiffusionMaps ?e 1 ! 2 ! 0 = Re (snd ?e ! 2 ! 0) * Re (fst ?e ! 0)"
    by simp
  moreover from a have "has_shape 3 1 (evaluateDiffusionMaps ?e 1)" by simp
  moreover from b have "evaluateDiffusionMaps ?e 5 = evaluateDiffusionMaps ?e 2" by simp
  ultimately show ?thesis by simp
qed

text \<open>
  Claim C6 as stated fails: with two eigenpairs and \<open>k = 5\<close> the function returns the two
  scaled columns and raises nothing.
\<close>

theorem evaluateDiffusionMaps_counterexample:
  "evaluateDiffusionMaps ([Complex 2 1, 3], [[Complex 1 1, 1], [1, - 1], [0, 5]]) 5 =
     [[2, 3], [2, - 3], [0, 15]]"
  by (simp add: evaluateDiffusionMaps_def py_slice_to_def)

section \<open>The iteration of the matrix builders\<close>

lemma append_loop_eq: "append_loop n g = map g [0..<n]"
  unfolding append_loop_def by (induction n) simp_all

lemma mat_set_shape: "has_shape n m A \<Longrightarrow> has_shape n m (mat_set A i j v)"
  by (cases "i < length A")
     (auto simp: has_shape_def mat_set_def list_all_length nth_list_update list_update_beyond)

lemma mat_set_nth:
  "has_shape n m A \<Longrightarrow> i < n \<Longrightarrow> j < m \<Longrightarrow> i' < n \<Longrightarrow> j' < m \<Longrightarrow>
   mat_set A i j v ! i' ! j' = (if i' = i \<and> j' = j then v else A ! i' ! j')"
  by (auto simp: has_shape_def mat_set_def list_all_length nth_list_update)

lemma fill_row_shape:
  "has_shape n m A \<Longrightarrow> has_shape n m (foldl (\<lambda>A j. mat_set A i j (f j)) A [0..<c])"
  by (induction c) (simp_all add: mat_set_shape)

lemma fill_row_nth:
  assumes "has_shape n m A" "i < n" "c \<le> m" "i' < n" "j' < m"
  shows "foldl (\<lambda>A j. mat_set A i j (f j)) A [0..<c] ! i' ! j' =
         (if i' = i \<and> j' < c then f j' else A ! i' ! j')"
  using assms(3)
proof (induction c)
  case 0
  then show ?case by simp
next
  case (Suc c)
  let ?B = "foldl (\<lambda>A j. mat_set A i j (f j)) A [0..<c]"
  have sh: "has_shape n m ?B" by (rule fill_row_shape [OF assms(1)])
  have IH: "?B ! i' ! j' = (if i' = i \<and> j' < c then f j' else A ! i' ! j')"
    using Suc by simp
  have c: "c < m" using Suc.prems by simp
  show ?case
    using IH by (auto simp: mat_set_nth [OF sh assms(2) c assms(4,5)] less_Suc_eq)
qed

lemma fill_entries_Suc:
  "fill_entries (Suc n) c f A =
     foldl (\<lambda>A j. mat_set A n j (f n j)) (fill_entries n c f A) [0..<c n]"
  by (simp add: fill_entries_def)

lemma fill_entries_shape: "has_shape N m A \<Longrightarrow> has_shape N m (fill_entries n c f A)"
proof (induction n)
  case 0
  then show ?case by (simp add: fill_entries_def)
next
  case (Suc n)
  then show ?case by (simp add: fill_entries_Suc fill_row_shape)
qed

lemma fill_entries_nth:
  assumes "has_shape N m A" "i' < N" "j' < m" "\<And>i. i < n \<Longrightarrow> c i \<le> m"
  shows "n \<le> N \<Longrightarrow> fill_entries n c f A ! i' ! j' =
         (if i' < n \<and> j' < c i' then f i' j' else A ! i' ! j')"
  using assms(4)
proof (induction n)
  case 0
  then show ?case by (simp add: fill_entries_def)
next
  case (Suc n)
  let ?B = "fill_entries n c f A"
  have sh: "has_shape N m ?B" by (rule fill_entries_shape [OF assms(1)])
  have IH: "?B ! i' ! j' = (if i' < n \<and> j' < c i' then f i' j' else A ! i' ! j')"
    using Suc by simp
  have n: "n < N" and c: "c n \<le> m" using Suc.prems by simp_all
  show ?case
    unfolding fill_entries_Suc
    using IH by (auto simp: fill_row_nth [OF sh n c assms(2,3)] less_Suc_eq)
qed

lemma np_zeros_shape: "has_shape n m (np_zeros n m)"
  by (simp add: has_shape_def np_zeros_def list_all_length)

lemma np_zeros_nth: "i < n \<Longrightarrow> j < m \<Longrightarrow> np_zeros n m ! i ! j = 0"
  by (simp add: np_zeros_def)

lemma np_transpose_shape: "has_shape (length A) (length A) (np_transpose A)"
  by (simp add: has_shape_def np_transpose_def list_all_length)

lemma np_transpose_nth: "i < length A \<Longrightarrow> j < length A \<Longrightarrow> np_transpose A ! i ! j = A ! j ! i"
  by (simp add: np_transpose_def)

lemma mat_add_shape: "has_shape n m A \<Longrightarrow> has_shape n m B \<Longrightarrow> has_shape n m (mat_add A B)"
  by (auto simp: has_shape_def mat_add_def list_all_length)

lemma mat_add_nth:
  "has_shape n m A \<Longrightarrow> has_shape n m B \<Longrightarrow> i < n \<Longrightarrow> j < m \<Longrightarrow>
   mat_add A B ! i ! j = A ! i ! j + B ! i ! j"
  by (auto simp: has_shape_def mat_add_def list_all_length)

text \<open>The lower triangle filled from zeros, then mirrored by adding the transpose.\<close>

lemma mirrored_shape:
  "has_shape n n (mat_add (fill_entries n (\<lambda>i. i) f (np_zeros n n))
                          (np_transpose (fill_entries n (\<lambda>i. i) f (np_zeros n n))))"
proof -
  let ?L = "fill_entries n (\<lambda>i. i) f (np_zeros n n)"
  have sh: "has_shape n n ?L" by (rule fill_entries_shape [OF np_zeros_shape])
  then have len: "length ?L = n" by (rule has_shape_length)
  have "has_shape n n (np_transpose ?L)" using np_transpose_shape [of ?L] len by simp
  then show ?thesis by (intro mat_add_shape sh)
qed

lemma mirrored_nth:
  assumes "i < n" "j < n"
  shows "mat_add (fill_entries n (\<lambda>i. i) f (np_zeros n n))
                 (np_transpose (fill_entries n (\<lambda>i. i) f (np_zeros n n))) ! i ! j =
         (if j < i then f i j else if i < j then f j i else 0)"
proof -
  let ?L = "fill_entries n (\<lambda>i. i) f (np_zeros n n)"
  have sh: "has_shape n n ?L" by (rule fill_entries_shape [OF np_zeros_shape])
  then have len: "length ?L = n" by (rule has_shape_length)
  have sht: "has_shape n n (np_transpose ?L)" using np_transpose_shape [of ?L] len by simp
  have L: "?L ! a ! b = (if b < a then f a b else 0)" if "a < n" "b < n" for a b
    using that fill_entries_nth [OF np_zeros_shape [of n n] that, of n "\<lambda>i. i" f]
    by (simp add: np_zeros_nth)
  show ?thesis
    using assms by (simp add: mat_add_nth [OF sh sht] np_transpose_nth len L)
qed

lemma concat_uniform_length:
  "\<forall>xs\<in>set xss. length xs = n \<Longrightarrow> length (concat xss) = length xss * n"
  by (induction xss) simp_all

lemma concat_uniform_nth:
  "\<forall>xs\<in>set xss. length xs = n \<Longrightarrow> k < length xss \<Longrightarrow> i < n \<Longrightarrow>
   concat xss ! (k * n + i) = xss ! k ! i"
proof (induction xss arbitrary: k)
  case Nil
  then show ?case by simp
next
  case (Cons xs xss)
  show ?case
  proof (cases k)
    case 0
    then show ?thesis using Cons.prems by (simp add: nth_append)
  next
    case (Suc k')
    have "concat xss ! (k' * n + i) = xss ! k' ! i"
      using Cons.prems Suc by (intro Cons.IH) simp_all
    moreover have "Suc k' * n + i = length xs + (k' * n + i)"
      using Cons.prems by simp
    ultimately show ?thesis
      using Suc by (simp add: nth_append del: mult_Suc)
  qed
qed

lemma transpose_ensemble:
  assumes "has_shape n M X" "0 < n"
  shows "transpose X = map (\<lambda>m. map (\<lambda>i. X ! i ! m) [0..<n]) [0..<M]"
proof -
  have "transpose X = map (\<lambda>m. map (\<lambda>i. X ! i ! m) [0..<length X]) [0..<M]"
    using assms by (intro transpose_rectangle) (auto simp: has_shape_def list_all_length)
  then show ?thesis using assms by (simp add: has_shape_length)
qed

lemma reshape_ensemble_length:
  assumes "has_shape n M X" "0 < n"
  shows "length (reshape_ensemble X) = M * n"
  unfolding reshape_ensemble_def transpose_ensemble [OF assms]
  using concat_uniform_length [of "map (\<lambda>m. map (\<lambda>i. X ! i ! m) [0..<n]) [0..<M]" n]
  by simp

lemma reshape_ensemble_nth:
  assumes "has_shape n M X" "i < n" "m < M"
  shows "reshape_ensemble X ! (m * n + i) = X ! i ! m"
proof -
  have n: "0 < n" using assms by simp
  show ?thesis
    unfolding reshape_ensemble_def transpose_ensemble [OF assms(1) n]
    using concat_uniform_nth [of "map (\<lambda>m. map (\<lambda>i. X ! i ! m) [0..<n]) [0..<M]" n m i] assms
    by simp
qed

lemma stride_count:
  assumes "i < n"
  shows "(M * n - i + n - 1) div n = (M::nat)"
proof (cases M)
  case 0
  then show ?thesis using assms by simp
next
  case (Suc M')
  have "M * n - i + n - 1 = M * n + (n - 1 - i)"
    using assms Suc by simp
  moreover have "(n - 1 - i + M * n) div n = M + (n - 1 - i) div n"
    using assms by (intro div_mult_self1) simp
  moreover have "(n - 1 - i) div n = 0"
    using assms by simp
  ultimately show ?thesis by (simp add: add.commute)
qed

lemma stride_reshape_ensemble:
  assumes "has_shape n M X" "i < n"
  shows "py_stride_from i n (reshape_ensemble X) = X ! i"
proof -
  have n: "0 < n" using assms by simp
  have len: "length (X ! i) = M" using assms by (rule has_shape_row)
  have "py_stride_from i n (reshape_ensemble X) =
        map (\<lambda>k. reshape_ensemble X ! (i + k * n)) [0..<M]"
    by (simp only: py_stride_from_def reshape_ensemble_length [OF assms(1) n] stride_count [OF assms(2)])
  also have "\<dots> = map (\<lambda>k. X ! i ! k) [0..<M]"
    using reshape_ensemble_nth [OF assms] by (intro map_cong refl) (simp add: add.commute)
  also have "\<dots> = X ! i"
    using map_nth [of "X ! i"] len by simp
  finally show ?thesis .
qed

lemma np_sum_evaluate: "np_sum (evaluate k X Y) = (\<Sum>x\<leftarrow>X. \<Sum>y\<leftarrow>Y. k x y)"
  by (simp add: np_sum_def evaluate_def comp_def)

lemma sum_list_swap:
  fixes f :: "'a \<Rightarrow> 'b \<Rightarrow> real"
  shows "(\<Sum>x\<leftarrow>xs. \<Sum>y\<leftarrow>ys. f x y) = (\<Sum>y\<leftarrow>ys. \<Sum>x\<leftarrow>xs. f x y)"
  by (induction xs) (simp_all add: sum_list_addf)

lemma spec_D_formula_commute:
  assumes "\<And>x y. k x y = k y x"
  shows "spec_D_formula k Ci Cj = spec_D_formula k Cj Ci"
proof -
  have "(\<Sum>x\<leftarrow>Ci. \<Sum>y\<leftarrow>Cj. k x y) = (\<Sum>y\<leftarrow>Cj. \<Sum>x\<leftarrow>Ci. k x y)"
    by (rule sum_list_swap)
  also have "\<dots> = (\<Sum>y\<leftarrow>Cj. \<Sum>x\<leftarrow>Ci. k y x)"
    using assms by simp
  finally show ?thesis by (simp add: spec_D_formula_def mult.commute)
qed

lemma shape1_eq: "has_shape n M X \<Longrightarrow> 0 < n \<Longrightarrow> shape1 X = M"
  by (cases X) (auto simp: shape1_def has_shape_def)

lemma KernelBurst_distMat_nth:
  assumes "has_shape n M X" "i < n" "j < n"
  shows "KernelBurst_distMat kern X ! i ! j =
         (if j < i then (np_sum (kern (X ! i) (X ! i)) + np_sum (kern (X ! j) (X ! j))
                          - 2 * np_sum (kern (X ! i) (X ! j))) / (real M) ^ 2
          else if i < j then (np_sum (kern (X ! j) (X ! j)) + np_sum (kern (X ! i) (X ! i))
                          - 2 * np_sum (kern (X ! j) (X ! i))) / (real M) ^ 2
          else 0)"
proof -
  have n: "0 < n" using assms by simp
  have len: "shape0 X = n" using assms by (simp add: shape0_def has_shape_length)
  have M: "shape1 X = M" by (rule shape1_eq [OF assms(1) n])
  have s: "py_stride_from a n (reshape_ensemble X) = X ! a" if "a < n" for a
    using assms(1) that by (rule stride_reshape_ensemble)
  show ?thesis
    unfolding KernelBurst_distMat_def Let_def len M append_loop_eq
    using assms by (simp add: mirrored_nth s)
qed

lemma KernelTraj_distMat_nth:
  assumes "length clouds = n" "i < n" "j < n"
  shows "KernelTraj_distMat kern clouds ! i ! j =
         (if j < i then
            np_sum (kern (clouds ! i) (clouds ! i)) / (real (length (clouds ! i))) ^ 2
            + np_sum (kern (clouds ! j) (clouds ! j)) / (real (length (clouds ! j))) ^ 2
            - 2 * np_sum (kern (clouds ! i) (clouds ! j))
              / (real (length (clouds ! i)) * real (length (clouds ! j)))
          else if i < j then
            np_sum (kern (clouds ! j) (clouds ! j)) / (real (length (clouds ! j))) ^ 2
            + np_sum (kern (clouds ! i) (clouds ! i)) / (real (length (clouds ! i))) ^ 2
            - 2 * np_sum (kern (clouds ! j) (clouds ! i))
              / (real (length (clouds ! j)) * real (length (clouds ! i)))
          else 0)"
  unfolding KernelTraj_distMat_def Let_def assms(1) append_loop_eq
  using assms by (simp add: mirrored_nth)

lemma L2Burst_distMat_nth:
  assumes "has_shape n M X" "i < n" "j < n"
  shows "L2Burst_distMat lib self X ! i ! j = fst (L2distance lib self (X ! i) (X ! j))"
proof -
  have len: "shape0 X = n" using assms by (simp add: shape0_def has_shape_length)
  have s: "py_stride_from a n (reshape_ensemble X) = X ! a" if "a < n" for a
    using assms(1) that by (rule stride_reshape_ensemble)
  show ?thesis
    unfolding L2Burst_distMat_def Let_def len
    using assms
    by (simp add: fill_entries_nth [OF np_zeros_shape [of n n], where c = "\<lambda>i. n"] s)
qed

lemma L2distance_commute: "L2distance lib self cloud1 cloud2 = L2distance lib self cloud2 cloud1"
  by (simp add: L2distance_def Let_def power2_commute)

lemma L2distance_same:
  assumes "dblquad_zero lib"
  shows "fst (L2distance lib self cloud cloud) = 0"
  using assms by (simp add: L2distance_def Let_def dblquad_zero_def)

lemma visited_entries_Suc:
  "visited_entries (Suc n) c = visited_entries n c @ map (\<lambda>j. (n, j)) [0..<c n]"
  by (simp add: visited_entries_def)

lemma fill_entries_visited:
  "fill_entries n c f A = foldl (\<lambda>A (i, j). mat_set A i j (f i j)) A (visited_entries n c)"
proof (induction n)
  case 0
  then show ?case by (simp add: fill_entries_def visited_entries_def)
next
  case (Suc n)
  then show ?case
    by (simp add: fill_entries_Suc visited_entries_Suc foldl_map)
qed

lemma visited_lower: "list_all (\<lambda>(i, j). j < i) (visited_entries n (\<lambda>i. i))"
  by (auto simp: visited_entries_def list_all_iff)

lemma L2Burst_distMat_visited:
  "L2Burst_distMat lib self X0 =
     foldl (\<lambda>A (i, j). mat_set A i j
              (fst (L2distance lib self (py_stride_from i (shape0 X0) (reshape_ensemble X0))
                                        (py_stride_from j (shape0 X0) (reshape_ensemble X0)))))
       (np_zeros (shape0 X0) (shape0 X0)) (L2Burst_visited X0)"
  by (simp add: L2Burst_distMat_def L2Burst_visited_def Let_def fill_entries_visited)

section \<open>Claims on the pairwise matrices\<close>

text \<open>
  Claim C1. For every symmetric kernel function \<open>k\<close>, both builders produce, for every
  pair \<open>i \<noteq> j\<close>, \<open>D[i,j] = S_i / |C_i|\<^sup>2 + S_j / |C_j|\<^sup>2 - 2 K_ij / (|C_i| |C_j|)\<close>.
  In \<^verbatim>\<open>KernelBurstTransitionManifold.fit\<close> the clouds are the rows \<open>X[i]\<close> of an ensemble of
  shape \<open>(n, M, dim)\<close>, every cloud has \<open>M\<close> points and the division by \<open>M\<^sup>2\<close> is the
  division by the sizes of the two clouds. In \<^verbatim>\<open>KernelTrajTransitionManifold.computeRC\<close>
  the clouds have sizes of their own and each term is divided by the size of its cloud.
  The clouds are not empty: on an empty cloud the formula and the code divide by zero.
\<close>

theorem pairwise_matrix_formula:
  assumes "\<And>x y. k x y = k y x"
    and "has_shape n M X" and "0 < M"
    and "length clouds = n" and "clouds ! i \<noteq> []" and "clouds ! j \<noteq> []"
    and "i < n" and "j < n" and "i \<noteq> j"
  shows "KernelBurst_distMat (evaluate k) X ! i ! j = spec_D_formula k (X ! i) (X ! j)
       \<and> KernelTraj_distMat (evaluate k) clouds ! i ! j = spec_D_formula k (clouds ! i) (clouds ! j)"
proof -
  have li: "length (X ! i) = M" and lj: "length (X ! j) = M"
    using assms by (simp_all add: has_shape_row)
  consider "j < i" | "i < j" using assms by linarith
  then show ?thesis
  proof cases
    case 1
    have "KernelBurst_distMat (evaluate k) X ! i ! j = spec_D_formula k (X ! i) (X ! j)"
      using assms 1
      by (simp add: KernelBurst_distMat_nth [where M = M and n = n] np_sum_evaluate
          spec_D_formula_def li lj power2_eq_square add_divide_distrib diff_divide_distrib)
    moreover have "KernelTraj_distMat (evaluate k) clouds ! i ! j =
                   spec_D_formula k (clouds ! i) (clouds ! j)"
      using assms 1
      by (simp add: KernelTraj_distMat_nth [where n = n] np_sum_evaluate spec_D_formula_def)
    ultimately show ?thesis by simp
  next
    case 2
    have "KernelBurst_distMat (evaluate k) X ! i ! j = spec_D_formula k (X ! j) (X ! i)"
      using assms 2
      by (simp add: KernelBurst_distMat_nth [where M = M and n = n] np_sum_evaluate
          spec_D_formula_def li lj power2_eq_square add_divide_distrib diff_divide_distrib)
    moreover have "KernelTraj_distMat (evaluate k) clouds ! i ! j =
                   spec_D_formula k (clouds ! j) (clouds ! i)"
      using assms 2
      by (simp add: KernelTraj_distMat_nth [where n = n] np_sum_evaluate spec_D_formula_def)
    ultimately show ?thesis
      using spec_D_formula_commute [of k, OF assms(1)] by simp
  qed
qed

theorem pairwise_matrix_formula_witness:
  "KernelBurst_distMat (evaluate (\<lambda>x y. x * y)) [[1, 2], [3, 4], [5, 6 :: real]] ! 0 ! 2 = 16
   \<and> KernelTraj_distMat (evaluate (\<lambda>x y. x * y)) [[1, 2], [3], [5, 6, 7 :: real]] ! 0 ! 2 = 81 / 4"
proof -
  let ?k = "\<lambda>x y :: real. x * y"
  let ?X = "[[1, 2], [3, 4], [5, 6 :: real]]"
  let ?C = "[[1, 2], [3], [5, 6, 7 :: real]]"
  have sh: "has_shape 3 2 ?X" by (simp add: has_shape_def)
  have "KernelBurst_distMat (evaluate ?k) ?X ! 0 ! 2 = spec_D_formula ?k (?X ! 0) (?X ! 2)
      \<and> KernelTraj_distMat (evaluate ?k) ?C ! 0 ! 2 = spec_D_formula ?k (?C ! 0) (?C ! 2)"
    by (rule pairwise_matrix_formula [where n = 3 and M = 2]) (simp_all add: has_shape_def)
  then show ?thesis
    by (simp add: spec_D_formula_def power2_eq_square)
qed

text \<open>
  Claim C5, as amended. For every ensemble of \<open>n\<close> clouds of \<open>M > 0\<close> points, every list of
  \<open>n\<close> trajectories whose clouds \<open>i\<close> and \<open>j\<close> are not empty, and all \<open>i, j < n\<close>, the matrix
  of each of the three builders has \<open>D[i,i] = 0\<close> and \<open>D[i,j] = D[j,i]\<close>. The two kernel
  builders have it by construction, for any kernel evaluator whatever: the entries they
  compute are those with \<open>j < i\<close>, and the transpose is added. The builder
  \<^verbatim>\<open>L2BurstTransitionManifold.fit\<close> mirrors nothing: it computes every entry as
  \<open>D[i,j] = L2distance(C_i, C_j)[0]\<close>, the quadrature of \<open>(kde_i - kde_j)\<^sup>2 / rho\<close>, which is
  the same integrand for \<open>(i, j)\<close> and \<open>(j, i)\<close> and the zero function for \<open>i = j\<close>; here the
  weight \<open>rho\<close> is nowhere 0 and the quadrature of the zero function is 0.
\<close>

theorem pairwise_matrix_symmetric:
  assumes "has_shape n M X" and "has_shape n M X2" and "0 < M"
    and "length clouds = n" and "clouds ! i \<noteq> []" and "clouds ! j \<noteq> []"
    and "i < n" and "j < n"
    and "\<forall>x y. l2_rho self x y \<noteq> 0" and "dblquad_zero lib"
  shows "KernelBurst_distMat kern X ! i ! i = 0
       \<and> KernelBurst_distMat kern X ! i ! j = KernelBurst_distMat kern X ! j ! i
       \<and> KernelTraj_distMat kern clouds ! i ! i = 0
       \<and> KernelTraj_distMat kern clouds ! i ! j = KernelTraj_distMat kern clouds ! j ! i
       \<and> list_all (\<lambda>(a, b). b < a) (visited_entries n (\<lambda>i. i))
       \<and> L2Burst_distMat lib self X2 ! i ! j = fst (L2distance lib self (X2 ! i) (X2 ! j))
       \<and> L2Burst_distMat lib self X2 ! i ! i = 0
       \<and> L2Burst_distMat lib self X2 ! i ! j = L2Burst_distMat lib self X2 ! j ! i"
proof -
  have kb: "KernelBurst_distMat kern X ! i ! i = 0
       \<and> KernelBurst_distMat kern X ! i ! j = KernelBurst_distMat kern X ! j ! i"
    using assms(1,7,8) by (simp add: KernelBurst_distMat_nth [where M = M and n = n])
  have kt: "KernelTraj_distMat kern clouds ! i ! i = 0
       \<and> KernelTraj_distMat kern clouds ! i ! j = KernelTraj_distMat kern clouds ! j ! i"
    using assms(4,7,8) by (simp add: KernelTraj_distMat_nth [where n = n])
  have l2: "L2Burst_distMat lib self X2 ! a ! b = fst (L2distance lib self (X2 ! a) (X2 ! b))"
    if "a < n" "b < n" for a b
    using assms(2) that by (rule L2Burst_distMat_nth)
  have diag: "L2Burst_distMat lib self X2 ! i ! i = 0"
    using l2 [OF assms(7,7)] L2distance_same [OF assms(10)] by simp
  have sym: "L2Burst_distMat lib self X2 ! i ! j = L2Burst_distMat lib self X2 ! j ! i"
    using l2 [OF assms(7,8)] l2 [OF assms(8,7)] L2distance_commute [of lib self "X2 ! i" "X2 ! j"]
    by simp
  show ?thesis
    using kb kt visited_lower [of n] l2 [OF assms(7,8)] diag sym by simp
qed

theorem pairwise_matrix_symmetric_witness:
  "KernelBurst_distMat (evaluate (\<lambda>p q. p ! 0 * q ! 0)) [[[0, 0], [1, 0]], [[0, 1], [1, 1]]] ! 0 ! 0 = 0
   \<and> KernelBurst_distMat (evaluate (\<lambda>p q. p ! 0 * q ! 0)) [[[0, 0], [1, 0]], [[0, 1], [1, 1]]] ! 0 ! 1 =
      KernelBurst_distMat (evaluate (\<lambda>p q. p ! 0 * q ! 0)) [[[0, 0], [1, 0]], [[0, 1], [1, 1]]] ! 1 ! 0
   \<and> L2Burst_distMat toy_density toy_L2Burst [[(0, 0), (1, 0)], [(0, 1), (1, 1)]] ! 0 ! 0 = 0
   \<and> L2Burst_distMat toy_density toy_L2Burst [[(0, 0), (1, 0)], [(0, 1), (1, 1)]] ! 0 ! 1 =
      L2Burst_distMat toy_density toy_L2Burst [[(0, 0), (1, 0)], [(0, 1), (1, 1)]] ! 1 ! 0"
proof -
  let ?k = "evaluate (\<lambda>p q :: real list. p ! 0 * q ! 0)"
  let ?X = "[[[0, 0], [1, 0]], [[0, 1], [1, 1 :: real]]]"
  let ?X2 = "[[(0, 0), (1, 0)], [(0, 1), (1, 1 :: real)]] :: (real \<times> real) list list"
  have sh: "has_shape 2 2 ?X" by (simp add: has_shape_def)
  have sh2: "has_shape 2 2 ?X2" by (simp add: has_shape_def)
  have rho: "\<forall>x y. l2_rho toy_L2Burst x y \<noteq> 0" by (simp add: toy_L2Burst_def)
  have quad: "dblquad_zero toy_density" by (simp add: dblquad_zero_def toy_density_def)
  have "KernelBurst_distMat ?k ?X ! 0 ! 0 = 0
       \<and> KernelBurst_distMat ?k ?X ! 0 ! 1 = KernelBurst_distMat ?k ?X ! 1 ! 0
       \<and> KernelTraj_distMat ?k ?X ! 0 ! 0 = 0
       \<and> KernelTraj_distMat ?k ?X ! 0 ! 1 = KernelTraj_distMat ?k ?X ! 1 ! 0
       \<and> list_all (\<lambda>(a, b). b < a) (visited_entries 2 (\<lambda>i. i))
       \<and> L2Burst_distMat toy_density toy_L2Burst ?X2 ! 0 ! 1 =
           fst (L2distance toy_density toy_L2Burst (?X2 ! 0) (?X2 ! 1))
       \<and> L2Burst_distMat toy_density toy_L2Burst ?X2 ! 0 ! 0 = 0
       \<and> L2Burst_distMat toy_density toy_L2Burst ?X2 ! 0 ! 1 =
           L2Burst_distMat toy_density toy_L2Burst ?X2 ! 1 ! 0"
    by (rule pairwise_matrix_symmetric [OF sh sh2 _ _ _ _ _ _ rho quad]) simp_all
  then show ?thesis by simp
qed

text \<open>
  Claim C5 as stated gives the mirroring of one triangle as the reason of the symmetry for
  every builder. It is not what \<^verbatim>\<open>L2BurstTransitionManifold.fit\<close> does: on two clouds its
  two \<^verbatim>\<open>for\<close> statements compute and assign the entries \<open>(0,0)\<close>, \<open>(0,1)\<close>, \<open>(1,0)\<close>, \<open>(1,1)\<close>
  in this order, the diagonal and the triangle \<open>j > i\<close> among them, each from a call of
  \<^verbatim>\<open>L2distance\<close> of its own.
\<close>

theorem L2Burst_not_mirrored_counterexample:
  "L2Burst_visited ([[(0, 0)], [(1, 1)]] :: (real \<times> real) list list) = [(0, 0), (0, 1), (1, 0), (1, 1)]
   \<and> \<not> list_all (\<lambda>(i, j). j < i) (L2Burst_visited ([[(0, 0)], [(1, 1)]] :: (real \<times> real) list list))"
proof -
  have u: "[0..<2] = [0, 1]" by (simp add: upt_rec)
  have n: "shape0 ([[(0, 0)], [(1, 1)]] :: (real \<times> real) list list) = 2" by (simp add: shape0_def)
  have v: "L2Burst_visited ([[(0, 0)], [(1, 1)]] :: (real \<times> real) list list) = [(0, 0), (0, 1), (1, 0), (1, 1)]"
    unfolding L2Burst_visited_def Let_def n visited_entries_def u by simp
  show ?thesis
    unfolding v by simp
qed

text \<open>
  Claim C10. For every ensemble \<open>X\<close> of shape \<open>(n, M, dim)\<close> and every start point
  \<open>i < n\<close>, row \<open>i + m * n\<close> of \<^verbatim>\<open>_reshape(X)\<close> is the sample \<open>X[i, m]\<close>, and the slice
  \<^verbatim>\<open>X[i::n]\<close> of the flattened array is the cloud \<open>X[i]\<close>, its \<open>M\<close> samples in order.
\<close>

theorem reshape_stride_recovers_cloud:
  assumes "has_shape n M X" and "i < n"
  shows "py_stride_from i n (reshape_ensemble X) = X ! i
       \<and> (\<forall>m<M. reshape_ensemble X ! (i + m * n) = X ! i ! m)"
  using assms stride_reshape_ensemble [OF assms] reshape_ensemble_nth [OF assms]
  by (simp add: add.commute)

theorem reshape_stride_recovers_cloud_witness:
  "reshape_ensemble [[1, 2, 3], [4, 5, 6 :: nat]] = [1, 4, 2, 5, 3, 6]
   \<and> py_stride_from 1 2 (reshape_ensemble [[1, 2, 3], [4, 5, 6 :: nat]]) = [4, 5, 6]"
proof -
  let ?X = "[[1, 2, 3], [4, 5, 6 :: nat]]"
  have sh: "has_shape 2 3 ?X" by (simp add: has_shape_def)
  have "py_stride_from 1 2 (reshape_ensemble ?X) = ?X ! 1"
    using reshape_stride_recovers_cloud [OF sh, of 1] by simp
  moreover have "reshape_ensemble ?X = [1, 4, 2, 5, 3, 6]"
    by (simp add: reshape_ensemble_def)
  ultimately show ?thesis by simp
qed

section \<open>The stages of \<^verbatim>\<open>LinearRandomFeatureManifold.fit\<close>\<close>

lemma flat_index_less:
  assumes "i < n" "m < (M::nat)"
  shows "i * M + m < n * M"
proof -
  have "i * M + m < i * M + M" using assms by simp
  also have "\<dots> = Suc i * M" by simp
  also have "\<dots> \<le> n * M" using assms by (intro mult_le_mono1) simp
  finally show ?thesis .
qed

lemma concat_ensemble_nth:
  assumes "has_shape n M X" "i < n" "m < M"
  shows "concat X ! (i * M + m) = X ! i ! m"
  using assms concat_uniform_nth [of X M i m]
  by (simp add: has_shape_def list_all_iff)

lemma reshape_sum_axis1_shape: "has_shape n nc (reshape_sum_axis1 n M nc Phi)"
  by (simp add: has_shape_def reshape_sum_axis1_def list_all_length)

lemma reshape_sum_axis1_nth:
  assumes "has_shape (n * M) nc Phi" "i < n" "c < nc"
  shows "reshape_sum_axis1 n M nc Phi ! i ! c = (\<Sum>m\<leftarrow>[0..<M]. Phi ! (i * M + m) ! c)"
proof -
  have "concat Phi ! ((i * M + m) * nc + c) = Phi ! (i * M + m) ! c" if "m < M" for m
    using assms that flat_index_less [of i n m M] concat_uniform_nth [of Phi nc "i * M + m" c]
    by (simp add: has_shape_def list_all_iff)
  then have eq: "map (\<lambda>m. concat Phi ! ((i * M + m) * nc + c)) [0..<M] =
             map (\<lambda>m. Phi ! (i * M + m) ! c) [0..<M]"
    by (intro map_cong refl) simp
  have "reshape_sum_axis1 n M nc Phi ! i ! c =
        sum_list (map (\<lambda>m. concat Phi ! ((i * M + m) * nc + c)) [0..<M])"
    using assms by (simp add: reshape_sum_axis1_def)
  then show ?thesis
    by (simp only: eq)
qed

lemma subtract_mean_shape:
  assumes "has_shape n nc E" "0 < n"
  shows "has_shape n nc (subtract_mean n E)"
  using assms np_sum_axis0_length [OF assms]
  by (auto simp: has_shape_def subtract_mean_def list_all_length)

lemma subtract_mean_nth:
  assumes "has_shape n nc E" "i < n" "c < nc"
  shows "subtract_mean n E ! i ! c = E ! i ! c - (\<Sum>i'\<leftarrow>[0..<n]. E ! i' ! c) / real n"
proof -
  have n: "0 < n" using assms by simp
  have len: "length (np_sum_axis0 E) = nc" by (rule np_sum_axis0_length [OF assms(1) n])
  have "np_sum_axis0 E ! c = sum_list (map (\<lambda>row. row ! c) E)"
    by (rule np_sum_axis0_nth [OF assms(1) n assms(3)])
  also have "\<dots> = (\<Sum>i'\<leftarrow>[0..<n]. E ! i' ! c)"
    using sum_list_map_nth [of "\<lambda>row. row ! c" E] assms(1) by (simp add: has_shape_length)
  finally have s: "np_sum_axis0 E ! c = (\<Sum>i'\<leftarrow>[0..<n]. E ! i' ! c)" .
  show ?thesis
    using assms len s
    by (simp add: subtract_mean_def has_shape_length has_shape_row [OF assms(1)])
qed

lemma ncols_eq: "has_shape n nc E \<Longrightarrow> 0 < n \<Longrightarrow> ncols E = nc"
  by (cases E) (auto simp: ncols_def has_shape_def)

lemma map2_same: "map2 f (map g xs) (map h xs) = map (\<lambda>x. f (g x) (h x)) xs"
  by (induction xs) simp_all

lemma covariance_nth:
  assumes "has_shape n nc E" "0 < n" "a < nc" "b < nc"
  shows "np_matmul (np_T E) E ! a ! b = (\<Sum>i\<leftarrow>[0..<n]. E ! i ! a * E ! i ! b)"
proof -
  have "np_matmul (np_T E) E ! a ! b = sum_list (map (\<lambda>r. r ! a * r ! b) E)"
    using assms by (simp add: np_matmul_def np_T_def ncols_eq [OF assms(1,2)] map2_same)
  also have "\<dots> = (\<Sum>i\<leftarrow>[0..<n]. E ! i ! a * E ! i ! b)"
    using sum_list_map_nth [of "\<lambda>r. r ! a * r ! b" E] assms(1) by (simp add: has_shape_length)
  finally show ?thesis .
qed

lemma fit_embedding_ok:
  assumes "fit_transform lib smp (concat X) = (smp1, Phi)"
    and "length (concat Phi) = length X * shape1 X * lrf_n_components self"
  shows "fit_embedding lib self smp X =
           (None, self\<lparr>lrf_sampler := Some smp1,
                        lrf_embedded := Some (subtract_mean (length X)
                           (reshape_sum_axis1 (length X) (shape1 X) (lrf_n_components self) Phi)),
                        lrf_vec := Some (snd (eigsh lib
                           (np_matmul
                              (np_T (subtract_mean (length X)
                                 (reshape_sum_axis1 (length X) (shape1 X) (lrf_n_components self) Phi)))
                              (subtract_mean (length X)
                                 (reshape_sum_axis1 (length X) (shape1 X) (lrf_n_components self) Phi)))
                           1 ''LM''))\<rparr>)"
  using assms by (simp add: fit_embedding_def Let_def split_beta)

lemma sum_list_map2_mult:
  fixes xs ys :: vec
  assumes "length xs = length ys"
  shows "sum_list (map2 (*) xs ys) = (\<Sum>i<length xs. xs ! i * ys ! i)"
proof -
  have "sum_list (map2 (*) xs ys) = (\<Sum>i = 0..<length (map2 (*) xs ys). map2 (*) xs ys ! i)"
    by (rule sum_list_sum_nth)
  also have "\<dots> = (\<Sum>i = 0..<length xs. xs ! i * ys ! i)"
    using assms by (intro sum.cong) simp_all
  finally show ?thesis by (simp add: atLeast0LessThan)
qed

lemma gram_quadratic:
  fixes E :: "nat \<Rightarrow> nat \<Rightarrow> real" and v :: "nat \<Rightarrow> real"
  shows "(\<Sum>a<nc. v a * (\<Sum>b<nc. (\<Sum>i<n. E i a * E i b) * v b)) = (\<Sum>i<n. (\<Sum>a<nc. E i a * v a)\<^sup>2)"
proof -
  have "(\<Sum>i<n. (\<Sum>a<nc. E i a * v a)\<^sup>2) = (\<Sum>i<n. \<Sum>a<nc. \<Sum>b<nc. (E i a * v a) * (E i b * v b))"
    by (simp add: power2_eq_square sum_product)
  also have "\<dots> = (\<Sum>a<nc. \<Sum>i<n. \<Sum>b<nc. (E i a * v a) * (E i b * v b))"
    by (rule sum.swap)
  also have "\<dots> = (\<Sum>a<nc. \<Sum>b<nc. \<Sum>i<n. (E i a * v a) * (E i b * v b))"
    by (intro sum.cong refl sum.swap)
  also have "\<dots> = (\<Sum>a<nc. v a * (\<Sum>b<nc. (\<Sum>i<n. E i a * E i b) * v b))"
    by (simp add: sum_distrib_left sum_distrib_right mult_ac)
  finally show ?thesis by simp
qed

lemma sum_list_upt_lessThan: "sum_list (map f [0..<n]) = (\<Sum>i<n. f i)"
  by (simp add: interv_sum_list_conv_sum_set_nat atLeast0LessThan)

lemma covariance_shape:
  assumes "has_shape n nc E" "0 < n"
  shows "has_shape nc nc (np_matmul (np_T E) E)"
  by (simp add: has_shape_def np_matmul_def np_T_def ncols_eq [OF assms] list_all_length)

lemma gram_eigenvalue_nonneg:
  assumes "has_shape n nc E" "0 < n" "eigenpair (np_matmul (np_T E) E) lam v"
  shows "0 \<le> lam"
proof -
  let ?C = "np_matmul (np_T E) E"
  have shC: "has_shape nc nc ?C" by (rule covariance_shape [OF assms(1,2)])
  have lenC: "length ?C = nc" using shC by (rule has_shape_length)
  have lenv: "length v = nc" using assms(3) lenC by (simp add: eigenpair_def)
  have ev: "mat_vec ?C v ! a = lam * v ! a" if "a < nc" for a
    using assms(3) that lenv by (simp add: eigenpair_def)
  have mv: "mat_vec ?C v ! a = (\<Sum>b<nc. (\<Sum>i<n. E ! i ! a * E ! i ! b) * v ! b)" if "a < nc" for a
  proof -
    have row: "length (?C ! a) = nc" using shC that by (rule has_shape_row)
    have "mat_vec ?C v ! a = sum_list (map2 (*) (?C ! a) v)"
      using that lenC by (simp add: mat_vec_def)
    also have "\<dots> = (\<Sum>b<nc. ?C ! a ! b * v ! b)"
      using sum_list_map2_mult [of "?C ! a" v] row lenv by simp
    also have "\<dots> = (\<Sum>b<nc. (\<Sum>i<n. E ! i ! a * E ! i ! b) * v ! b)"
      using that
      by (intro sum.cong refl)
         (simp add: covariance_nth [OF assms(1,2)] sum_list_upt_lessThan)
    finally show ?thesis .
  qed
  have "lam * (\<Sum>a<nc. (v ! a)\<^sup>2) = (\<Sum>a<nc. v ! a * (lam * v ! a))"
    by (simp add: sum_distrib_left power2_eq_square mult_ac)
  also have "\<dots> = (\<Sum>a<nc. v ! a * (\<Sum>b<nc. (\<Sum>i<n. E ! i ! a * E ! i ! b) * v ! b))"
    by (intro sum.cong refl) (simp add: ev [symmetric] mv)
  also have "\<dots> = (\<Sum>i<n. (\<Sum>a<nc. E ! i ! a * v ! a)\<^sup>2)"
    by (rule gram_quadratic [where v = "\<lambda>a. v ! a" and E = "\<lambda>i a. E ! i ! a"])
  also have "0 \<le> \<dots>"
    by (intro sum_nonneg) simp
  finally have q: "0 \<le> lam * (\<Sum>a<nc. (v ! a)\<^sup>2)" .
  obtain x where "x \<in> set v" "x \<noteq> 0"
    using assms(3) by (auto simp: eigenpair_def)
  then obtain a where a: "a < nc" "v ! a \<noteq> 0"
    using lenv by (auto simp: in_set_conv_nth)
  have "0 < (\<Sum>a<nc. (v ! a)\<^sup>2)"
    using a by (intro sum_pos2 [where i = a]) simp_all
  then show ?thesis
    using q by (simp add: zero_le_mult_iff)
qed

lemma dominant_eigenvector:
  assumes "has_shape n nc E" "0 < n" "eigsh_LM1_contract lib (np_matmul (np_T E) E)"
  shows "\<exists>lam. eigenpair (np_matmul (np_T E) E) lam
                 (map (\<lambda>r. r ! 0) (snd (eigsh lib (np_matmul (np_T E) E) 1 ''LM'')))
              \<and> (\<forall>mu u. eigenpair (np_matmul (np_T E) E) mu u \<longrightarrow> mu \<le> lam)"
proof -
  let ?C = "np_matmul (np_T E) E"
  obtain w V where wV: "eigsh lib ?C 1 ''LM'' = (w, V)"
    by (cases "eigsh lib ?C 1 ''LM''")
  have ep: "eigenpair ?C (w ! 0) (map (\<lambda>r. r ! 0) V)"
    and dom: "\<And>mu u. eigenpair ?C mu u \<Longrightarrow> \<bar>mu\<bar> \<le> \<bar>w ! 0\<bar>"
    using assms(3) wV by (auto simp: eigsh_LM1_contract_def)
  have nonneg: "0 \<le> w ! 0"
    by (rule gram_eigenvalue_nonneg [OF assms(1,2) ep])
  have "mu \<le> w ! 0" if "eigenpair ?C mu u" for mu u
    using dom [OF that] nonneg by simp
  then show ?thesis
    using ep wV by auto
qed

section \<open>Claims on the linear random-feature manifold and the random embedding\<close>

text \<open>
  Claim C7. On every \<^verbatim>\<open>LinearRandomFeatureManifold\<close> whose sampler is still \<^verbatim>\<open>None\<close>,
  \<^verbatim>\<open>predict(Y)\<close> raises the error of the unfitted model for every \<open>Y\<close>, Python's
  \<^verbatim>\<open>RuntimeError\<close> with the message to run \<^verbatim>\<open>fit()\<close> first, and leaves the object as it
  was.
\<close>

theorem predict_before_fit:
  assumes "lrf_sampler self = None"
  shows "LinearRandomFeatureManifold_predict lib self Y =
           (Inl (RuntimeError ''Run fit() first to fit the model.''), self)"
  using assms by (simp add: LinearRandomFeatureManifold_predict_def)

theorem predict_before_fit_witness:
  "LinearRandomFeatureManifold_predict toy_libraries
     (LinearRandomFeatureManifold_init ''rff'' 100 ''rbf'' (1/10) ()) [[1, 2]] =
   (Inl (RuntimeError ''Run fit() first to fit the model.''),
    LinearRandomFeatureManifold_init ''rff'' 100 ''rbf'' (1/10) ())"
  by (rule predict_before_fit) (simp add: LinearRandomFeatureManifold_init_def)

text \<open>
  Claim C8. For every input \<open>X\<close> of shape \<open>(n, M, X_dim)\<close> with \<open>n > 0\<close>, a method that is
  \<^verbatim>\<open>rff\<close> or \<^verbatim>\<open>nystroem\<close>, and features \<open>Phi\<close> of shape \<open>(n * M, n_components)\<close> returned
  by the sampler for the flattened input (row \<open>i * M + m\<close> of which is the sample
  \<open>X[i, m]\<close>), \<^verbatim>\<open>fit\<close> raises nothing and computes: \<open>S[i]\<close>, the sum of the \<open>M\<close> feature
  rows of start point \<open>i\<close>, not divided by \<open>M\<close>; \<open>E[i] = S[i] - mean\<close>, the mean taken over
  the start points; \<open>Cov = E\<^sup>T E\<close>; and it stores \<open>E\<close> and, as \<^verbatim>\<open>vec\<close>, the eigenvectors
  that \<^verbatim>\<open>eigsh(Cov, k=1, which="LM")\<close> returns. When that call returns an eigenpair of
  largest magnitude, as it is documented to, the column of \<^verbatim>\<open>vec\<close> is an eigenvector of
  \<open>Cov\<close> for its largest eigenvalue.
\<close>

theorem fit_mean_embedding_covariance:
  assumes "lrf_method self = ''rff'' \<or> lrf_method self = ''nystroem''"
    and "has_shape n M X" and "0 < n"
    and "nc = lrf_n_components self"
    and "smp = (if lrf_method self = ''rff''
                then RBFSampler lib (lrf_gamma self) nc (lrf_kwargs self)
                else Nystroem lib (lrf_kernel self) nc (lrf_kwargs self))"
    and "fit_transform lib smp (concat X) = (smp1, Phi)"
    and "has_shape (n * M) nc Phi"
    and "S = reshape_sum_axis1 n M nc Phi"
    and "E = subtract_mean n S"
    and "Cov = np_matmul (np_T E) E"
  shows "LinearRandomFeatureManifold_fit lib self X_dim X =
           (None, self\<lparr>lrf_n_points := Some n, lrf_M := Some M, lrf_dim := Some X_dim,
                        lrf_sampler := Some smp1, lrf_embedded := Some E,
                        lrf_vec := Some (snd (eigsh lib Cov 1 ''LM''))\<rparr>)
       \<and> (\<forall>i<n. \<forall>m<M. concat X ! (i * M + m) = X ! i ! m)
       \<and> (\<forall>i<n. \<forall>c<nc. S ! i ! c = (\<Sum>m\<leftarrow>[0..<M]. Phi ! (i * M + m) ! c))
       \<and> (\<forall>i<n. \<forall>c<nc. E ! i ! c = S ! i ! c - (\<Sum>i'\<leftarrow>[0..<n]. S ! i' ! c) / real n)
       \<and> (\<forall>a<nc. \<forall>b<nc. Cov ! a ! b = (\<Sum>i\<leftarrow>[0..<n]. E ! i ! a * E ! i ! b))
       \<and> (eigsh_LM1_contract lib Cov \<longrightarrow>
            (\<exists>lam. eigenpair Cov lam (map (\<lambda>r. r ! 0) (snd (eigsh lib Cov 1 ''LM'')))
                  \<and> (\<forall>mu u. eigenpair Cov mu u \<longrightarrow> mu \<le> lam)))"
proof (intro conjI allI impI)
  have lenX: "length X = n" using assms(2) by (rule has_shape_length)
  have M: "shape1 X = M" by (rule shape1_eq [OF assms(2,3)])
  have size: "length (concat Phi) = n * M * nc"
    using assms(7) concat_uniform_length [of Phi nc] by (simp add: has_shape_def list_all_iff)
  let ?self = "self\<lparr>lrf_n_points := Some n, lrf_M := Some M, lrf_dim := Some X_dim\<rparr>"
  have "fit_embedding lib ?self smp X =
          (None, ?self\<lparr>lrf_sampler := Some smp1, lrf_embedded := Some E,
                        lrf_vec := Some (snd (eigsh lib Cov 1 ''LM''))\<rparr>)"
    using fit_embedding_ok [of lib smp X smp1 Phi ?self] assms(4,6,8,9,10) size lenX M
    by simp
  then show "LinearRandomFeatureManifold_fit lib self X_dim X =
           (None, self\<lparr>lrf_n_points := Some n, lrf_M := Some M, lrf_dim := Some X_dim,
                        lrf_sampler := Some smp1, lrf_embedded := Some E,
                        lrf_vec := Some (snd (eigsh lib Cov 1 ''LM''))\<rparr>)"
    using assms(1,4,5) lenX M
    by (auto simp: LinearRandomFeatureManifold_fit_def Let_def)
next
  fix i m assume "i < n" "m < M"
  then show "concat X ! (i * M + m) = X ! i ! m"
    using assms(2) by (simp add: concat_ensemble_nth)
next
  fix i c assume "i < n" "c < nc"
  then show "S ! i ! c = (\<Sum>m\<leftarrow>[0..<M]. Phi ! (i * M + m) ! c)"
    using assms(7,8) by (simp add: reshape_sum_axis1_nth)
next
  fix i c assume "i < n" "c < nc"
  moreover have "has_shape n nc S"
    unfolding assms(8) by (rule reshape_sum_axis1_shape)
  ultimately show "E ! i ! c = S ! i ! c - (\<Sum>i'\<leftarrow>[0..<n]. S ! i' ! c) / real n"
    unfolding assms(9) by (rule subtract_mean_nth [rotated])
next
  fix a b assume "a < nc" "b < nc"
  moreover have "has_shape n nc E"
    unfolding assms(8,9) by (intro subtract_mean_shape reshape_sum_axis1_shape assms(3))
  ultimately show "Cov ! a ! b = (\<Sum>i\<leftarrow>[0..<n]. E ! i ! a * E ! i ! b)"
    unfolding assms(10) using assms(3) by (intro covariance_nth)
next
  assume "eigsh_LM1_contract lib Cov"
  moreover have "has_shape n nc E"
    unfolding assms(8,9) by (intro subtract_mean_shape reshape_sum_axis1_shape assms(3))
  ultimately show "\<exists>lam. eigenpair Cov lam (map (\<lambda>r. r ! 0) (snd (eigsh lib Cov 1 ''LM'')))
                  \<and> (\<forall>mu u. eigenpair Cov mu u \<longrightarrow> mu \<le> lam)"
    unfolding assms(10) using assms(3) by (intro dominant_eigenvector)
qed

lemma toy_libraries_contract: "eigsh_LM1_contract toy_libraries [[c]]"
proof -
  have "mu = c" if "eigenpair [[c]] mu u" for mu u
  proof -
    from that obtain x where u: "u = [x]" and x: "x \<noteq> 0"
      by (cases u) (auto simp: eigenpair_def)
    from that show ?thesis
      using x by (simp add: u eigenpair_def mat_vec_def)
  qed
  moreover have "eigenpair [[c]] c [1]"
    by (simp add: eigenpair_def mat_vec_def)
  ultimately show ?thesis
    by (auto simp: eigsh_LM1_contract_def toy_libraries_def)
qed

theorem fit_mean_embedding_covariance_witness:
  "LinearRandomFeatureManifold_fit toy_libraries
     (LinearRandomFeatureManifold_init ''rff'' 1 ''rbf'' (1/10) ()) 2
     [[[1, 2], [3, 4]], [[5, 6], [7, 8]], [[0, 0], [1, 1]]] =
   (None, \<lparr>lrf_method = ''rff'', lrf_gamma = 1/10, lrf_kernel = ''rbf'',
            lrf_n_components = 1, lrf_kwargs = (), lrf_sampler = Some (),
            lrf_embedded = Some [[- (8/3)], [40/3], [- (32/3)]],
            lrf_vec = Some [[1]], lrf_n_points = Some 3, lrf_M = Some 2, lrf_dim = Some 2\<rparr>)
   \<and> np_matmul (np_T [[- (8/3)], [40/3], [- (32/3)]]) [[- (8/3)], [40/3], [- (32/3)]] = [[896/3]]
   \<and> (\<exists>lam. eigenpair [[896/3]] lam [1] \<and> (\<forall>mu u. eigenpair [[896/3]] mu u \<longrightarrow> mu \<le> lam))"
proof -
  let ?X = "[[[1, 2], [3, 4]], [[5, 6], [7, 8]], [[0, 0], [1, 1 :: real]]]"
  let ?self = "LinearRandomFeatureManifold_init ''rff'' 1 ''rbf'' (1/10) () :: (unit, unit) LinearRandomFeatureManifold"
  let ?Phi = "[[3], [7], [11], [15], [0], [2 :: real]]"
  let ?E = "[[- (8/3)], [40/3], [- (32/3 :: real)]]"
  have u: "[0..<1] = [0]" "[0..<2] = [0, 1]" "[0..<3] = [0, 1, 2]"
    by (simp_all add: upt_rec)
  have S: "reshape_sum_axis1 3 2 1 ?Phi = [[10], [26], [2]]"
    unfolding reshape_sum_axis1_def u by simp
  then have S': "reshape_sum_axis1 3 2 (Suc 0) ?Phi = [[10], [26], [2]]"
    by simp
  have E: "subtract_mean 3 [[10], [26], [2]] = ?E"
    by (simp add: subtract_mean_def np_sum_axis0_def)
  have C: "np_matmul (np_T ?E) ?E = [[896/3]]"
    by (simp add: np_matmul_def np_T_def ncols_def)
  have all: "LinearRandomFeatureManifold_fit toy_libraries ?self 2 ?X =
           (None, ?self\<lparr>lrf_n_points := Some 3, lrf_M := Some 2, lrf_dim := Some 2,
                        lrf_sampler := Some (), lrf_embedded := Some ?E,
                        lrf_vec := Some (snd (eigsh toy_libraries [[896/3]] 1 ''LM''))\<rparr>)
       \<and> (\<forall>i<3. \<forall>m<2. concat ?X ! (i * 2 + m) = ?X ! i ! m)
       \<and> (\<forall>i<3. \<forall>c<1. [[10], [26], [2]] ! i ! c = (\<Sum>m\<leftarrow>[0..<2]. ?Phi ! (i * 2 + m) ! c))
       \<and> (\<forall>i<3. \<forall>c<1. ?E ! i ! c = [[10], [26], [2]] ! i ! c - (\<Sum>i'\<leftarrow>[0..<3]. [[10], [26], [2]] ! i' ! c) / real 3)
       \<and> (\<forall>a<1. \<forall>b<1. [[896/3]] ! a ! b = (\<Sum>i\<leftarrow>[0..<3]. ?E ! i ! a * ?E ! i ! b))
       \<and> (eigsh_LM1_contract toy_libraries [[896/3]] \<longrightarrow>
            (\<exists>lam. eigenpair [[896/3]] lam (map (\<lambda>r. r ! 0) (snd (eigsh toy_libraries [[896/3]] 1 ''LM'')))
                  \<and> (\<forall>mu u. eigenpair [[896/3]] mu u \<longrightarrow> mu \<le> lam)))"
    by (rule fit_mean_embedding_covariance [where n = 3 and M = 2 and nc = 1 and smp = "()"
          and Phi = ?Phi and X_dim = 2 and S = "[[10], [26], [2]]" and E = ?E and Cov = "[[896/3]]"])
       (simp_all add: has_shape_def LinearRandomFeatureManifold_init_def toy_libraries_def S' E C)
  have v: "map (\<lambda>r. r ! 0) (snd (eigsh toy_libraries [[896/3]] 1 ''LM'')) = [1]"
    by (simp add: toy_libraries_def)
  from all have "LinearRandomFeatureManifold_fit toy_libraries ?self 2 ?X =
           (None, ?self\<lparr>lrf_n_points := Some 3, lrf_M := Some 2, lrf_dim := Some 2,
                        lrf_sampler := Some (), lrf_embedded := Some ?E,
                        lrf_vec := Some (snd (eigsh toy_libraries [[896/3]] 1 ''LM''))\<rparr>)"
    by (rule conjunct1)
  moreover from all toy_libraries_contract [of "896/3"]
  have "\<exists>lam. eigenpair [[896/3]] lam [1] \<and> (\<forall>mu u. eigenpair [[896/3]] mu u \<longrightarrow> mu \<le> lam)"
    unfolding v by blast
  ultimately show ?thesis
    using C by (simp add: LinearRandomFeatureManifold_init_def toy_libraries_def)
qed

text \<open>
  Claim C9. The constructor seeds the process-wide generator before it draws, so for a
  fixed triple of input dimension, output dimension and seed the result does not depend
  on the state \<open>g\<close> or \<open>g'\<close> of the generator before the call: two constructions raise
  the same error or build the same object, with the same matrix \<open>A\<close>, and
  \<^verbatim>\<open>evaluate\<close> agrees on every input.
\<close>

theorem RandomLinearEmbeddingFunction_reproducible:
  "RandomLinearEmbeddingFunction_init rng inputdimension outputdimension seed g =
     RandomLinearEmbeddingFunction_init rng inputdimension outputdimension seed g'
   \<and> (\<forall>f g1 f' g2.
         RandomLinearEmbeddingFunction_init rng inputdimension outputdimension seed g = Inr (f, g1)
         \<and> RandomLinearEmbeddingFunction_init rng inputdimension outputdimension seed g' = Inr (f', g2)
         \<longrightarrow> rle_A f = rle_A f'
             \<and> (\<forall>x. RandomLinearEmbeddingFunction_evaluate f x =
                      RandomLinearEmbeddingFunction_evaluate f' x))"
proof -
  have eq: "RandomLinearEmbeddingFunction_init rng inputdimension outputdimension seed g =
            RandomLinearEmbeddingFunction_init rng inputdimension outputdimension seed g'"
    by (simp add: RandomLinearEmbeddingFunction_init_def)
  show ?thesis
  proof (intro conjI allI impI)
    show "RandomLinearEmbeddingFunction_init rng inputdimension outputdimension seed g =
          RandomLinearEmbeddingFunction_init rng inputdimension outputdimension seed g'"
      by (rule eq)
  next
    fix f g1 f' g2 x
    assume "RandomLinearEmbeddingFunction_init rng inputdimension outputdimension seed g = Inr (f, g1)
          \<and> RandomLinearEmbeddingFunction_init rng inputdimension outputdimension seed g' = Inr (f', g2)"
    then have "Inr (f, g1) = (Inr (f', g2) :: py_error + RandomLinearEmbeddingFunction \<times> 'a)"
      using eq by (elim conjE) (simp only:)
    then have "f = f'" by simp
    then show "rle_A f = rle_A f'"
      and "RandomLinearEmbeddingFunction_evaluate f x = RandomLinearEmbeddingFunction_evaluate f' x"
      by simp_all
  qed
qed

theorem RandomLinearEmbeddingFunction_reproducible_witness:
  "RandomLinearEmbeddingFunction_init toy_rng 1 2 7 0 =
     Inr (\<lparr>rle_inputdimension = 1, rle_outputdimension = 2, rle_seed = 7,
            rle_A = [[7/10, 8/10]]\<rparr>, 9)
   \<and> RandomLinearEmbeddingFunction_init toy_rng 1 2 7 5 =
     Inr (\<lparr>rle_inputdimension = 1, rle_outputdimension = 2, rle_seed = 7,
            rle_A = [[7/10, 8/10]]\<rparr>, 9)"
proof -
  have u: "[0..<1] = [0]" "[0..<2] = [0, 1]"
    by (simp_all add: upt_rec)
  have "RandomLinearEmbeddingFunction_init toy_rng 1 2 7 0 =
     Inr (\<lparr>rle_inputdimension = 1, rle_outputdimension = 2, rle_seed = 7,
            rle_A = [[7/10, 8/10]]\<rparr>, 9)"
    unfolding RandomLinearEmbeddingFunction_init_def toy_rng_def
    by (simp add: u)
  then show ?thesis
    using RandomLinearEmbeddingFunction_reproducible [of toy_rng 1 2 7 0 5, THEN conjunct1]
    by simp
qed

lemma KernelBurstTransitionManifold_fit_distMat:
  "KernelBurstTransitionManifold_fit sla_eigs self X = (None, self') \<Longrightarrow>
   kb_distMat self' = Some (KernelBurst_distMat (kb_kernel self) X)"
  by (auto simp: KernelBurstTransitionManifold_fit_def Let_def split: sum.splits)

end
